theory Spec2Isabelle
  imports Complex_Main "HOL-Library.Word" "HOL-Library.Signed_Division"
begin

section \<open>The numeric types of the Go source\<close>

subsection \<open>\<^verbatim>\<open>int8\<close> exponents\<close>

text \<open>
  The seven exponents of a \<^verbatim>\<open>Dimension\<close> are Go \<^verbatim>\<open>int8\<close> values: \<open>+\<close> and \<open>-\<close>
  wrap around modulo 256, \<^verbatim>\<open>/\<close> truncates towards zero and \<^verbatim>\<open>%\<close> takes the sign of
  the dividend. They are modelled as 8-bit words read in two's complement by \<open>sint\<close>.
\<close>

type_synonym int8 = "8 word"

definition quo8 :: "int8 \<Rightarrow> int8 \<Rightarrow> int8" where
  "quo8 a b = word_of_int (sint a sdiv sint b)"

definition rem8 :: "int8 \<Rightarrow> int8 \<Rightarrow> int8" where
  "rem8 a b = word_of_int (sint a smod sint b)"

subsection \<open>\<^verbatim>\<open>float64\<close> magnitudes\<close>

text \<open>
  A \<^verbatim>\<open>float64\<close> is an IEEE-754 binary64 value: a NaN, an infinity with its sign, or a
  finite number with its sign (so that \<open>+0\<close> and \<open>-0\<close> differ). \<open>Infty s\<close> and
  \<open>Fin s q\<close> are negative when \<open>s\<close> holds; \<open>q\<close> is the absolute value, a rational
  number. Every operation computes the exact rational result and rounds it once, to the
  nearest binary64 value, ties to even (53-bit significands, least exponent \<open>-1074\<close>,
  overflow to infinity from \<open>2 ^ 1024\<close>). Each operation of the source is rounded on its
  own: the fusing of \<^verbatim>\<open>x*y + z\<close> into one rounding, which the Go specification
  permits a compiler, is not modelled. The type also holds terms \<open>Fin s q\<close> that no
  binary64 value has (a negative \<open>q\<close>, or one that is not representable); the theorems
  below hold for them as well.
\<close>

datatype float64 = NaN | Infty bool | Fin bool rat

fun bitlen :: "nat \<Rightarrow> nat" where
  "bitlen n = (if n = 0 then 0 else Suc (bitlen (n div 2)))"

declare bitlen.simps [simp del]

definition pow2 :: "int \<Rightarrow> rat" where
  "pow2 e = (if 0 \<le> e then 2 ^ nat e else 1 / 2 ^ nat (- e))"

text \<open>The integer \<open>k\<close> with \<open>2 ^ k \<le> q < 2 ^ (k + 1)\<close>, for \<open>q > 0\<close>.\<close>

definition floor_log2 :: "rat \<Rightarrow> int" where
  "floor_log2 q =
     (if 1 \<le> q then int (bitlen (nat \<lfloor>q\<rfloor>)) - 1
      else - int (bitlen (nat (\<lceil>1 / q\<rceil> - 1))))"

definition round_half_even :: "rat \<Rightarrow> int" where
  "round_half_even x =
     (let f = \<lfloor>x\<rfloor>; d = x - of_int f
      in if d < 1 / 2 then f else if 1 / 2 < d then f + 1
         else if even f then f else f + 1)"

text \<open>Rounding a magnitude \<open>q \<ge> 0\<close>: \<open>None\<close> is overflow.\<close>

definition round_mag :: "rat \<Rightarrow> rat option" where
  "round_mag q =
     (if q = 0 then Some 0
      else let e = max (floor_log2 q - 52) (- 1074);
               r = of_int (round_half_even (q / pow2 e)) * pow2 e
           in if 2 ^ 1024 \<le> r then None else Some r)"

definition round64 :: "bool \<Rightarrow> rat \<Rightarrow> float64" where
  "round64 s q = (case round_mag q of None \<Rightarrow> Infty s | Some r \<Rightarrow> Fin s r)"

definition sval :: "bool \<Rightarrow> rat \<Rightarrow> rat" where
  "sval s q = (if s then - q else q)"

text \<open>A numeric constant of the source, converted to \<^verbatim>\<open>float64\<close>.\<close>

definition f64 :: "rat \<Rightarrow> float64" where
  "f64 q = (if q = 0 then Fin False 0 else round64 (q < 0) \<bar>q\<bar>)"

fun fneg :: "float64 \<Rightarrow> float64" where
  "fneg NaN = NaN"
| "fneg (Infty s) = Infty (\<not> s)"
| "fneg (Fin s q) = Fin (\<not> s) q"

fun fabs :: "float64 \<Rightarrow> float64" where
  "fabs NaN = NaN"
| "fabs (Infty s) = Infty False"
| "fabs (Fin s q) = Fin False q"

text \<open>
  An exact sum of zero is \<open>+0\<close>, except that \<open>-0 + -0\<close> is \<open>-0\<close>; a rounded sum
  keeps the sign of the exact one.
\<close>

fun fadd :: "float64 \<Rightarrow> float64 \<Rightarrow> float64" where
  "fadd NaN y = NaN"
| "fadd x NaN = NaN"
| "fadd (Infty s) (Infty t) = (if s = t then Infty s else NaN)"
| "fadd (Infty s) (Fin t q) = Infty s"
| "fadd (Fin s p) (Infty t) = Infty t"
| "fadd (Fin s p) (Fin t q) =
     (let x = sval s p + sval t q
      in if x = 0 then Fin (s \<and> t) 0 else round64 (x < 0) \<bar>x\<bar>)"

definition fsub :: "float64 \<Rightarrow> float64 \<Rightarrow> float64" where
  "fsub x y = fadd x (fneg y)"

fun fmul :: "float64 \<Rightarrow> float64 \<Rightarrow> float64" where
  "fmul NaN y = NaN"
| "fmul x NaN = NaN"
| "fmul (Infty s) (Infty t) = Infty (s \<noteq> t)"
| "fmul (Infty s) (Fin t q) = (if q = 0 then NaN else Infty (s \<noteq> t))"
| "fmul (Fin s p) (Infty t) = (if p = 0 then NaN else Infty (s \<noteq> t))"
| "fmul (Fin s p) (Fin t q) = round64 (s \<noteq> t) (p * q)"

fun fdiv :: "float64 \<Rightarrow> float64 \<Rightarrow> float64" where
  "fdiv NaN y = NaN"
| "fdiv x NaN = NaN"
| "fdiv (Infty s) (Infty t) = NaN"
| "fdiv (Infty s) (Fin t q) = Infty (s \<noteq> t)"
| "fdiv (Fin s p) (Infty t) = Fin (s \<noteq> t) 0"
| "fdiv (Fin s p) (Fin t q) =
     (if q = 0 then (if p = 0 then NaN else Infty (s \<noteq> t))
      else round64 (s \<noteq> t) (p / q))"

text \<open>The largest \<open>r\<close> with \<open>r * r \<le> n\<close>.\<close>

fun isqrt :: "nat \<Rightarrow> nat" where
  "isqrt n =
     (if n < 4 then (if n = 0 then 0 else 1)
      else let r = 2 * isqrt (n div 4)
           in if (r + 1) * (r + 1) \<le> n then r + 1 else r)"

declare isqrt.simps [simp del]

text \<open>
  The square root of \<open>q > 0\<close>, rounded: with \<open>e\<close> chosen so that \<open>t = q / 4 ^ e\<close> lies
  in \<open>[2 ^ 104, 2 ^ 106)\<close>, the significand is \<open>sqrt t\<close> rounded to an integer, decided
  by comparing \<open>t\<close> with the square of the midpoint.
\<close>

definition round_sqrt :: "rat \<Rightarrow> rat" where
  "round_sqrt q =
     (let e = floor_log2 q div 2 - 52;
          t = q / pow2 (2 * e);
          s = isqrt (nat \<lfloor>t\<rfloor>);
          h = (of_nat s + 1 / 2) * (of_nat s + 1 / 2);
          m = (if t < h then s else if h < t then s + 1
               else if even s then s else s + 1)
      in of_nat m * pow2 e)"

fun fsqrt :: "float64 \<Rightarrow> float64" where
  "fsqrt NaN = NaN"
| "fsqrt (Infty s) = (if s then NaN else Infty False)"
| "fsqrt (Fin s q) =
     (if q = 0 then Fin s 0 else if s then NaN else Fin False (round_sqrt q))"

text \<open>Go's \<^verbatim>\<open>==\<close> and \<^verbatim>\<open><\<close> on \<^verbatim>\<open>float64\<close>: false on NaN, and \<open>-0 == +0\<close>.\<close>

fun feq :: "float64 \<Rightarrow> float64 \<Rightarrow> bool" where
  "feq NaN y = False"
| "feq x NaN = False"
| "feq (Infty s) (Infty t) = (s = t)"
| "feq (Infty s) (Fin t q) = False"
| "feq (Fin s p) (Infty t) = False"
| "feq (Fin s p) (Fin t q) = (sval s p = sval t q)"

fun flt :: "float64 \<Rightarrow> float64 \<Rightarrow> bool" where
  "flt NaN y = False"
| "flt x NaN = False"
| "flt (Infty s) (Infty t) = (s \<and> \<not> t)"
| "flt (Infty s) (Fin t q) = s"
| "flt (Fin s p) (Infty t) = (\<not> t)"
| "flt (Fin s p) (Fin t q) = (sval s p < sval t q)"


section \<open>Package \<^verbatim>\<open>units\<close>\<close>

subsection \<open>Dimension and Value\<close>

record Dimension =
  L :: int8
  M :: int8
  T :: int8
  I :: int8
  \<Theta> :: int8
  N :: int8
  J :: int8

text \<open>The field \<^verbatim>\<open>value\<close> of the source is \<open>val\<close> here.\<close>

record Value =
  val :: float64
  dim :: Dimension

text \<open>The composite literals \<^verbatim>\<open>Dimension{}\<close> and \<^verbatim>\<open>Value{}\<close>.\<close>

definition Dimension0 :: Dimension where
  "Dimension0 = \<lparr>L = 0, M = 0, T = 0, I = 0, \<Theta> = 0, N = 0, J = 0\<rparr>"

definition Value0 :: Value where
  "Value0 = \<lparr>val = Fin False 0, dim = Dimension0\<rparr>"

definition NewValue :: "float64 \<Rightarrow> Dimension \<Rightarrow> Value" where
  "NewValue x d = \<lparr>val = x, dim = d\<rparr>"

definition Val :: "Value \<Rightarrow> float64" where
  "Val v = val v"

definition Dim :: "Value \<Rightarrow> Dimension" where
  "Dim v = dim v"

text \<open>
  The constructors of the base units used below. The wrapper structs \<^verbatim>\<open>Length\<close>,
  \<^verbatim>\<open>Mass\<close> and \<^verbatim>\<open>Time\<close> embed one Value and nothing else; the constructors are
  modelled by the Value they wrap.
\<close>

definition Meter :: "float64 \<Rightarrow> Value" where
  "Meter x = NewValue x (Dimension0\<lparr>L := 1\<rparr>)"

definition Kilogram :: "float64 \<Rightarrow> Value" where
  "Kilogram x = NewValue x (Dimension0\<lparr>M := 1\<rparr>)"

definition Second :: "float64 \<Rightarrow> Value" where
  "Second x = NewValue x (Dimension0\<lparr>T := 1\<rparr>)"

subsection \<open>Dimension.String\<close>

text \<open>The verb \<^verbatim>\<open>%d\<close> of \<^verbatim>\<open>fmt.Sprintf\<close> on an \<^verbatim>\<open>int8\<close>: signed decimal digits.\<close>

fun digits :: "nat \<Rightarrow> string" where
  "digits n =
     (if n < 10 then [''0123456789'' ! n]
      else digits (n div 10) @ [''0123456789'' ! (n mod 10)])"

declare digits.simps [simp del]

definition fmt_d :: "int8 \<Rightarrow> string" where
  "fmt_d x = (if sint x < 0 then CHR ''-'' # digits (nat (- sint x)) else digits (nat (sint x)))"

text \<open>The symbol of the temperature exponent, in UTF-8.\<close>

definition Theta_sym :: string where
  "Theta_sym = [CHR 0xCE, CHR 0x98]"

text \<open>
  The loop \<^verbatim>\<open>for i, p := range parts\<close>, which appends a space before every part but
  the first: \<open>i\<close> is the index, \<open>result\<close> the string built so far.
\<close>

fun join_parts :: "nat \<Rightarrow> string list \<Rightarrow> string \<Rightarrow> string" where
  "join_parts i [] result = result"
| "join_parts i (p # ps) result =
     join_parts (i + 1) ps ((if 0 < i then result @ '' '' else result) @ p)"

definition Dimension_String :: "Dimension \<Rightarrow> string" where
  "Dimension_String d =
     (if d = Dimension0 then ''[1]''
      else
        let parts = [];
            parts = (if L d \<noteq> 0 then parts @ [''L^'' @ fmt_d (L d)] else parts);
            parts = (if M d \<noteq> 0 then parts @ [''M^'' @ fmt_d (M d)] else parts);
            parts = (if T d \<noteq> 0 then parts @ [''T^'' @ fmt_d (T d)] else parts);
            parts = (if I d \<noteq> 0 then parts @ [''I^'' @ fmt_d (I d)] else parts);
            parts = (if \<Theta> d \<noteq> 0 then parts @ [Theta_sym @ ''^'' @ fmt_d (\<Theta> d)] else parts);
            parts = (if N d \<noteq> 0 then parts @ [''N^'' @ fmt_d (N d)] else parts);
            parts = (if J d \<noteq> 0 then parts @ [''J^'' @ fmt_d (J d)] else parts);
            result = ''['';
            result = join_parts 0 parts result
        in result @ '']'')"

subsection \<open>Arithmetic on Values\<close>

text \<open>An \<^verbatim>\<open>error\<close> is the message built by \<^verbatim>\<open>fmt.Errorf\<close>.\<close>

type_synonym error = string

definition almostEqual :: "float64 \<Rightarrow> float64 \<Rightarrow> float64 \<Rightarrow> bool" where
  "almostEqual a b tolerance =
     (if feq a b then True
      else let diff = fabs (fsub a b)
           in if feq a (f64 0) \<or> feq b (f64 0) \<or> flt diff tolerance
              then flt diff tolerance
              else flt (fdiv diff (fadd (fabs a) (fabs b))) tolerance)"

definition Value_Equal :: "Value \<Rightarrow> Value \<Rightarrow> bool" where
  "Value_Equal v other \<longleftrightarrow>
     dim v = dim other \<and> almostEqual (val v) (val other) (f64 (1 / 10 ^ 14))"

definition Value_Add :: "Value \<Rightarrow> Value \<Rightarrow> error + Value" where
  "Value_Add v other =
     (if dim v \<noteq> dim other
      then Inl (''cannot add quantities with different dimensions: ''
                @ Dimension_String (dim v) @ '' + '' @ Dimension_String (dim other))
      else Inr \<lparr>val = fadd (val v) (val other), dim = dim v\<rparr>)"

definition Value_Subtract :: "Value \<Rightarrow> Value \<Rightarrow> error + Value" where
  "Value_Subtract v other =
     (if dim v \<noteq> dim other
      then Inl (''cannot subtract quantities with different dimensions: ''
                @ Dimension_String (dim v) @ '' - '' @ Dimension_String (dim other))
      else Inr \<lparr>val = fsub (val v) (val other), dim = dim v\<rparr>)"

definition Value_Multiply :: "Value \<Rightarrow> Value \<Rightarrow> Value" where
  "Value_Multiply v other =
     \<lparr>val = fmul (val v) (val other),
      dim = \<lparr>L = L (dim v) + L (dim other),
             M = M (dim v) + M (dim other),
             T = T (dim v) + T (dim other),
             I = I (dim v) + I (dim other),
             \<Theta> = \<Theta> (dim v) + \<Theta> (dim other),
             N = N (dim v) + N (dim other),
             J = J (dim v) + J (dim other)\<rparr>\<rparr>"

definition Value_Divide :: "Value \<Rightarrow> Value \<Rightarrow> Value" where
  "Value_Divide v other =
     \<lparr>val = fdiv (val v) (val other),
      dim = \<lparr>L = L (dim v) - L (dim other),
             M = M (dim v) - M (dim other),
             T = T (dim v) - T (dim other),
             I = I (dim v) - I (dim other),
             \<Theta> = \<Theta> (dim v) - \<Theta> (dim other),
             N = N (dim v) - N (dim other),
             J = J (dim v) - J (dim other)\<rparr>\<rparr>"

definition Value_Scale :: "Value \<Rightarrow> float64 \<Rightarrow> Value" where
  "Value_Scale v scalar = \<lparr>val = fmul (val v) scalar, dim = dim v\<rparr>"

definition Value_Sqrt :: "Value \<Rightarrow> error + Value" where
  "Value_Sqrt v =
     (if rem8 (L (dim v)) 2 \<noteq> 0 \<or> rem8 (M (dim v)) 2 \<noteq> 0 \<or> rem8 (T (dim v)) 2 \<noteq> 0
         \<or> rem8 (I (dim v)) 2 \<noteq> 0 \<or> rem8 (\<Theta> (dim v)) 2 \<noteq> 0 \<or> rem8 (N (dim v)) 2 \<noteq> 0
         \<or> rem8 (J (dim v)) 2 \<noteq> 0
      then Inl (''cannot take square root of quantity with odd dimension exponents: ''
                @ Dimension_String (dim v))
      else Inr \<lparr>val = fsqrt (val v),
                dim = \<lparr>L = quo8 (L (dim v)) 2,
                       M = quo8 (M (dim v)) 2,
                       T = quo8 (T (dim v)) 2,
                       I = quo8 (I (dim v)) 2,
                       \<Theta> = quo8 (\<Theta> (dim v)) 2,
                       N = quo8 (N (dim v)) 2,
                       J = quo8 (J (dim v)) 2\<rparr>\<rparr>)"

definition Value_Abs :: "Value \<Rightarrow> Value" where
  "Value_Abs v = \<lparr>val = fabs (val v), dim = dim v\<rparr>"

definition Value_Negate :: "Value \<Rightarrow> Value" where
  "Value_Negate v = \<lparr>val = fneg (val v), dim = dim v\<rparr>"

definition IsDimensionless :: "Value \<Rightarrow> bool" where
  "IsDimensionless v \<longleftrightarrow> dim v = Dimension0"

section \<open>Package \<^verbatim>\<open>vector\<close>\<close>

record Vector3 =
  X :: Value
  Y :: Value
  Z :: Value

text \<open>
  A call \<^verbatim>\<open>r, _ := f(...)\<close> that discards the error: every error return of
  \<^verbatim>\<open>Value.Add\<close> and \<^verbatim>\<open>Value.Subtract\<close> carries \<^verbatim>\<open>Value{}\<close> as its first result.
\<close>

definition discard_err :: "error + Value \<Rightarrow> Value" where
  "discard_err r = (case r of Inl e \<Rightarrow> Value0 | Inr v \<Rightarrow> v)"

definition New :: "Value \<Rightarrow> Value \<Rightarrow> Value \<Rightarrow> error + Vector3" where
  "New x y z =
     (if Dim x \<noteq> Dim y \<or> Dim x \<noteq> Dim z
      then Inl (''vector components must have same dimension: x=''
                @ Dimension_String (Dim x) @ '', y='' @ Dimension_String (Dim y)
                @ '', z='' @ Dimension_String (Dim z))
      else Inr \<lparr>X = x, Y = y, Z = z\<rparr>)"

text \<open>The arguments of \<^verbatim>\<open>NewPosition\<close> are \<^verbatim>\<open>Length\<close> wrappers, modelled by their Values.\<close>

definition NewPosition :: "Value \<Rightarrow> Value \<Rightarrow> Value \<Rightarrow> Vector3" where
  "NewPosition x y z = \<lparr>X = x, Y = y, Z = z\<rparr>"

definition Zero :: "Dimension \<Rightarrow> Vector3" where
  "Zero d = \<lparr>X = NewValue (f64 0) d, Y = NewValue (f64 0) d, Z = NewValue (f64 0) d\<rparr>"

definition UnitX :: "Dimension \<Rightarrow> Vector3" where
  "UnitX d = \<lparr>X = NewValue (f64 1) d, Y = NewValue (f64 0) d, Z = NewValue (f64 0) d\<rparr>"

definition UnitY :: "Dimension \<Rightarrow> Vector3" where
  "UnitY d = \<lparr>X = NewValue (f64 0) d, Y = NewValue (f64 1) d, Z = NewValue (f64 0) d\<rparr>"

definition UnitZ :: "Dimension \<Rightarrow> Vector3" where
  "UnitZ d = \<lparr>X = NewValue (f64 0) d, Y = NewValue (f64 1) d, Z = NewValue (f64 0) d\<rparr>"

definition Vector3_Dim :: "Vector3 \<Rightarrow> Dimension" where
  "Vector3_Dim v = Dim (X v)"

definition Vector3_Add :: "Vector3 \<Rightarrow> Vector3 \<Rightarrow> error + Vector3" where
  "Vector3_Add v other =
     (case Value_Add (X v) (X other) of
        Inl err \<Rightarrow> Inl err
      | Inr x \<Rightarrow>
          (case Value_Add (Y v) (Y other) of
             Inl err \<Rightarrow> Inl err
           | Inr y \<Rightarrow>
               (case Value_Add (Z v) (Z other) of
                  Inl err \<Rightarrow> Inl err
                | Inr z \<Rightarrow> Inr \<lparr>X = x, Y = y, Z = z\<rparr>)))"

definition Vector3_Subtract :: "Vector3 \<Rightarrow> Vector3 \<Rightarrow> error + Vector3" where
  "Vector3_Subtract v other =
     (case Value_Subtract (X v) (X other) of
        Inl err \<Rightarrow> Inl err
      | Inr x \<Rightarrow>
          (case Value_Subtract (Y v) (Y other) of
             Inl err \<Rightarrow> Inl err
           | Inr y \<Rightarrow>
               (case Value_Subtract (Z v) (Z other) of
                  Inl err \<Rightarrow> Inl err
                | Inr z \<Rightarrow> Inr \<lparr>X = x, Y = y, Z = z\<rparr>)))"

definition Vector3_Scale :: "Vector3 \<Rightarrow> float64 \<Rightarrow> Vector3" where
  "Vector3_Scale v scalar =
     \<lparr>X = Value_Scale (X v) scalar, Y = Value_Scale (Y v) scalar, Z = Value_Scale (Z v) scalar\<rparr>"

definition Vector3_Negate :: "Vector3 \<Rightarrow> Vector3" where
  "Vector3_Negate v = \<lparr>X = Value_Negate (X v), Y = Value_Negate (Y v), Z = Value_Negate (Z v)\<rparr>"

definition Dot :: "Vector3 \<Rightarrow> Vector3 \<Rightarrow> Value" where
  "Dot v other =
     (let xx = Value_Multiply (X v) (X other);
          yy = Value_Multiply (Y v) (Y other);
          zz = Value_Multiply (Z v) (Z other);
          result = discard_err (Value_Add xx yy);
          result = discard_err (Value_Add result zz)
      in result)"

definition Cross :: "Vector3 \<Rightarrow> Vector3 \<Rightarrow> Vector3" where
  "Cross v other =
     (let xVal = discard_err (Value_Subtract (Value_Multiply (Y v) (Z other))
                                             (Value_Multiply (Z v) (Y other)));
          yVal = discard_err (Value_Subtract (Value_Multiply (Z v) (X other))
                                             (Value_Multiply (X v) (Z other)));
          zVal = discard_err (Value_Subtract (Value_Multiply (X v) (Y other))
                                             (Value_Multiply (Y v) (X other)))
      in \<lparr>X = xVal, Y = yVal, Z = zVal\<rparr>)"

definition MagnitudeSquared :: "Vector3 \<Rightarrow> Value" where
  "MagnitudeSquared v = Dot v v"

definition Magnitude :: "Vector3 \<Rightarrow> error + Value" where
  "Magnitude v = (let magSquared = MagnitudeSquared v in Value_Sqrt magSquared)"

definition Normalize :: "Vector3 \<Rightarrow> error + Vector3" where
  "Normalize v =
     (case Magnitude v of
        Inl err \<Rightarrow> Inl err
      | Inr mag \<Rightarrow>
          if feq (Val mag) (f64 0) then Inl ''cannot normalize zero vector''
          else Inr \<lparr>X = Value_Divide (X v) mag,
                    Y = Value_Divide (Y v) mag,
                    Z = Value_Divide (Z v) mag\<rparr>)"

definition ProjectOnto :: "Vector3 \<Rightarrow> Vector3 \<Rightarrow> error + Vector3" where
  "ProjectOnto v other =
     (let dotProduct = Dot v other;
          otherMagSquared = MagnitudeSquared other
      in if feq (Val otherMagSquared) (f64 0) then Inl ''cannot project onto zero vector''
         else let scalar = Value_Divide dotProduct otherMagSquared
              in Inr \<lparr>X = Value_Multiply (X other) scalar,
                        Y = Value_Multiply (Y other) scalar,
                        Z = Value_Multiply (Z other) scalar\<rparr>)"

definition Components :: "Vector3 \<Rightarrow> Value list" where
  "Components v = [X v, Y v, Z v]"

definition IsZero :: "Vector3 \<Rightarrow> bool" where
  "IsZero v \<longleftrightarrow> feq (Val (X v)) (f64 0) \<and> feq (Val (Y v)) (f64 0) \<and> feq (Val (Z v)) (f64 0)"

section \<open>Notions of the specification\<close>

text \<open>Two Dimensions are structurally equal when their seven exponents agree.\<close>

definition same_exponents :: "Dimension \<Rightarrow> Dimension \<Rightarrow> bool" where
  "same_exponents d e \<longleftrightarrow>
     L d = L e \<and> M d = M e \<and> T d = T e \<and> I d = I e \<and> \<Theta> d = \<Theta> e \<and> N d = N e \<and> J d = J e"

text \<open>The seven exponents of a Dimension, in the order of the struct.\<close>

definition exponents :: "Dimension \<Rightarrow> int8 list" where
  "exponents d = [L d, M d, T d, I d, \<Theta> d, N d, J d]"

text \<open>A Vector3 is well formed when its three components share one Dimension.\<close>

definition shares_dim :: "Vector3 \<Rightarrow> bool" where
  "shares_dim v \<longleftrightarrow> dim (X v) = dim (Y v) \<and> dim (X v) = dim (Z v)"

text \<open>
  The exponents whose doubling stays within \<^verbatim>\<open>int8\<close>: from \<open>-64\<close> to \<open>63\<close>.
\<close>

definition fits_doubling :: "Dimension \<Rightarrow> bool" where
  "fits_doubling d \<longleftrightarrow> list_all (\<lambda>e. - 64 \<le> sint e \<and> sint e < 64) (exponents d)"

subsection \<open>The tolerance comparison as the specification words it\<close>

definition tolerance14 :: float64 where
  "tolerance14 = f64 (1 / 10 ^ 14)"

definition abs_err :: "float64 \<Rightarrow> float64 \<Rightarrow> float64" where
  "abs_err a b = fabs (fsub a b)"

definition rel_err :: "float64 \<Rightarrow> float64 \<Rightarrow> float64" where
  "rel_err a b = fdiv (abs_err a b) (fadd (fabs a) (fabs b))"

text \<open>
  Equal as the specification describes it: false when the dimensions differ; otherwise
  true exactly when the magnitudes are equal, or neither magnitude is exactly zero and
  the relative error is within the tolerance, or some magnitude is exactly zero and the
  absolute error is within the tolerance.
\<close>

definition Equal_as_specified :: "Value \<Rightarrow> Value \<Rightarrow> bool" where
  "Equal_as_specified a b \<longleftrightarrow>
     dim a = dim b \<and>
     (feq (val a) (val b)
      \<or> (\<not> feq (val a) (f64 0) \<and> \<not> feq (val b) (f64 0)
          \<and> flt (rel_err (val a) (val b)) tolerance14)
      \<or> ((feq (val a) (f64 0) \<or> feq (val b) (f64 0))
          \<and> flt (abs_err (val a) (val b)) tolerance14))"

subsection \<open>The rendering of a Dimension as the specification words it\<close>

text \<open>The symbols with their exponents, in the fixed order L, M, T, I, \<open>\<Theta>\<close>, N, J.\<close>

definition symbol_exponents :: "Dimension \<Rightarrow> (string \<times> int8) list" where
  "symbol_exponents d =
     [(''L'', L d), (''M'', M d), (''T'', T d), (''I'', I d), (Theta_sym, \<Theta> d),
      (''N'', N d), (''J'', J d)]"

definition token :: "string \<times> int8 \<Rightarrow> string" where
  "token p = fst p @ ''^'' @ fmt_d (snd p)"

fun join_space :: "string list \<Rightarrow> string" where
  "join_space [] = []"
| "join_space [t] = t"
| "join_space (t # ts) = t @ '' '' @ join_space ts"

definition render_spec :: "Dimension \<Rightarrow> string" where
  "render_spec d =
     (if list_all (\<lambda>e. e = 0) (exponents d) then ''[1]''
      else ''['' @ join_space (map token (filter (\<lambda>p. snd p \<noteq> 0) (symbol_exponents d))) @ '']'')"

section \<open>Evaluating the numeric model\<close>

lemma floor_rat_numeral_div [simp]:
  "\<lfloor>(numeral a :: rat) / numeral b\<rfloor> = numeral a div numeral b"
  using floor_divide_of_int_eq [of "numeral a" "numeral b", where ?'a = rat] by simp

lemma ceiling_rat_numeral_div [simp]:
  "\<lceil>(numeral a :: rat) / numeral b\<rceil> = - ((- numeral a) div numeral b)"
  using floor_divide_of_int_eq [of "- numeral a" "numeral b", where ?'a = rat]
  by (simp add: ceiling_def)

lemmas f64_eval = round64_def round_mag_def floor_log2_def bitlen.simps pow2_def
  round_half_even_def Let_def f64_def sval_def fsub_def round_sqrt_def isqrt.simps

lemmas units_eval = Meter_def Kilogram_def Second_def NewValue_def Dimension0_def
  Val_def Dim_def exponents_def same_exponents_def

lemmas int8_eval = rem8_def quo8_def signed_modulo_int_def signed_divide_int_def

lemmas equal_eval = Value_Equal_def almostEqual_def Equal_as_specified_def abs_err_def
  rel_err_def tolerance14_def

lemmas vector3_eval = Normalize_def ProjectOnto_def Vector3_Add_def Vector3_Subtract_def
  Vector3_Scale_def Vector3_Negate_def New_def Zero_def UnitX_def UnitY_def UnitZ_def
  IsDimensionless_def fits_doubling_def

lemmas vector_eval = NewPosition_def shares_dim_def Dot_def Cross_def MagnitudeSquared_def
  Magnitude_def Value_Multiply_def Value_Divide_def Value_Add_def Value_Subtract_def
  Value_Negate_def Value_Scale_def Value_Sqrt_def discard_err_def Components_def

text \<open>
  The model agrees with binary64 on well-known values: the constants \<^verbatim>\<open>1e-14\<close> and
  \<^verbatim>\<open>0.1 + 0.2\<close>, a rounded quotient, a rounded square root and an overflow.
\<close>

lemma f64_tolerance_value:
  "f64 (1 / 10 ^ 14) = Fin False (6338253001141147 / 633825300114114700748351602688)"
  by (simp add: f64_eval)

lemma fadd_tenths:
  "fadd (f64 (1 / 10)) (f64 (2 / 10)) = Fin False (1351079888211149 / 4503599627370496)"
  by (simp add: f64_eval)

lemma fdiv_third:
  "fdiv (f64 1) (f64 3) = Fin False (6004799503160661 / 18014398509481984)"
  by (simp add: f64_eval)

lemma fsqrt_two: "fsqrt (f64 2) = Fin False (6369051672525773 / 4503599627370496)"
  by (simp add: f64_eval)

lemma fmul_overflow: "fmul (f64 (2 ^ 600)) (f64 (2 ^ 600)) = Infty False"
  by (simp add: f64_eval)

section \<open>The numeric model rounds to nearest\<close>

text \<open>
  The bit length, the binary logarithm and the integer square root used by the rounding
  functions compute what their names say.
\<close>

lemma bitlen_bounds: "0 < n \<Longrightarrow> 2 ^ (bitlen n - 1) \<le> n \<and> n < 2 ^ bitlen n"
proof (induction n rule: bitlen.induct)
  case (1 n)
  show ?case
  proof (cases "n div 2 = 0")
    case True
    with "1.prems" have "n = 1" by (auto simp: div_eq_0_iff)
    then show ?thesis by (simp add: bitlen.simps)
  next
    case False
    define k where "k = bitlen (n div 2)"
    have ih: "2 ^ (k - 1) \<le> n div 2 \<and> n div 2 < 2 ^ k"
      using "1.IH" "1.prems" False by (simp add: k_def)
    have pos: "0 < k"
      using False by (simp add: bitlen.simps k_def)
    have b: "bitlen n = Suc k"
      using "1.prems" by (simp add: bitlen.simps k_def)
    have p: "(2::nat) ^ k = 2 * 2 ^ (k - 1)"
      using pos by (cases k) simp_all
    have "(2::nat) ^ k \<le> 2 * (n div 2)"
      using ih p by simp
    then have lo: "(2::nat) ^ k \<le> n" by linarith
    have "Suc (n div 2) \<le> 2 ^ k"
      using ih by simp
    then have "2 * Suc (n div 2) \<le> 2 * 2 ^ k" by simp
    moreover have "n < 2 * Suc (n div 2)" by presburger
    ultimately have hi: "n < 2 * 2 ^ k" by linarith
    from lo hi b show ?thesis by simp
  qed
qed

lemma pow2_nat: "pow2 (int k) = 2 ^ k"
  by (simp add: pow2_def)

lemma pow2_neg: "pow2 (- int k) = 1 / 2 ^ k"
  by (simp add: pow2_def)

lemma pow2_pos: "0 < pow2 e"
  by (simp add: pow2_def)

lemma pow2_Suc: "pow2 (e + 1) = 2 * pow2 e"
proof (cases "0 \<le> e")
  case True
  then show ?thesis by (simp add: pow2_def nat_add_distrib)
next
  case False
  then obtain k where k: "e = - int (Suc k)"
    by (metis add.inverse_inverse int_nat_eq linorder_not_le nat_0_le neg_0_le_iff_le nless_le not0_implies_Suc order_antisym zero_less_nat_eq)
  then show ?thesis by (simp add: pow2_def nat_add_distrib)
qed


lemma of_nat_pow2_le: "(2::nat) ^ k \<le> n \<Longrightarrow> (2::rat) ^ k \<le> of_nat n"
proof -
  assume "(2::nat) ^ k \<le> n"
  then have "(of_nat (2 ^ k) :: rat) \<le> of_nat n" by (simp only: of_nat_le_iff)
  then show ?thesis by simp
qed

lemma of_nat_le_pow2: "n \<le> (2::nat) ^ k \<Longrightarrow> (of_nat n :: rat) \<le> 2 ^ k"
proof -
  assume "n \<le> (2::nat) ^ k"
  then have "(of_nat n :: rat) \<le> of_nat (2 ^ k)" by (simp only: of_nat_le_iff)
  then show ?thesis by simp
qed

lemma floor_log2_bounds:
  assumes "0 < q"
  shows "pow2 (floor_log2 q) \<le> q \<and> q < pow2 (floor_log2 q + 1)"
proof (cases "1 \<le> q")
  case True
  define n where "n = nat \<lfloor>q\<rfloor>"
  have fl: "1 \<le> \<lfloor>q\<rfloor>" using True by simp
  then have n0: "0 < n" by (simp add: n_def)
  have "of_int \<lfloor>q\<rfloor> \<le> q" "q < of_int \<lfloor>q\<rfloor> + 1" by linarith+
  moreover have "(of_nat n :: rat) = of_int \<lfloor>q\<rfloor>"
    using fl by (simp add: n_def)
  ultimately have n: "of_nat n \<le> q" "q < of_nat n + 1" by simp_all
  obtain k where k: "bitlen n = Suc k"
    using n0 by (simp add: bitlen.simps)
  have f: "floor_log2 q = int k"
    using True k by (simp add: floor_log2_def n_def)
  have b: "2 ^ k \<le> n" "n < 2 ^ Suc k"
    using bitlen_bounds [OF n0] k by simp_all
  have "(2::rat) ^ k \<le> q"
    using of_nat_pow2_le [OF b(1)] n(1) by (rule order_trans)
  then have lo: "pow2 (floor_log2 q) \<le> q"
    by (simp only: f pow2_nat)
  have "Suc n \<le> 2 ^ Suc k" using b(2) by simp
  then have "(of_nat (Suc n) :: rat) \<le> 2 ^ Suc k" by (rule of_nat_le_pow2)
  moreover have "(of_nat (Suc n) :: rat) = of_nat n + 1" by simp
  ultimately have "of_nat n + 1 \<le> (2::rat) ^ Suc k" by (simp only:)
  with n(2) have "q < 2 ^ Suc k" by (rule less_le_trans)
  moreover have "pow2 (floor_log2 q + 1) = 2 ^ Suc k"
    using pow2_nat [of "Suc k"] by (simp add: f add.commute)
  ultimately have hi: "q < pow2 (floor_log2 q + 1)"
    by (simp only:)
  from lo hi show ?thesis ..
next
  case False
  define r where "r = 1 / q"
  have r1: "1 < r" using False assms by (simp add: r_def)
  define m where "m = nat (\<lceil>r\<rceil> - 1)"
  have c: "of_int \<lceil>r\<rceil> - 1 < r" "r \<le> of_int \<lceil>r\<rceil>" by linarith+
  have c2: "2 \<le> \<lceil>r\<rceil>" using r1 by linarith
  then have m0: "0 < m" by (simp add: m_def)
  have mr: "(of_nat m :: rat) = of_int \<lceil>r\<rceil> - 1"
    using c2 by (simp add: m_def)
  obtain k where k: "bitlen m = Suc k"
    using m0 by (simp add: bitlen.simps)
  have f: "floor_log2 q = - int (Suc k)"
    using False k by (simp add: floor_log2_def m_def r_def)
  have b: "2 ^ k \<le> m" "m < 2 ^ Suc k"
    using bitlen_bounds [OF m0] k by simp_all
  have "(2::rat) ^ k \<le> of_nat m" by (rule of_nat_pow2_le [OF b(1)])
  moreover have "(of_nat m :: rat) < r" using c(1) by (simp only: mr)
  ultimately have 1: "2 ^ k < r" by (rule le_less_trans)
  have "Suc m \<le> 2 ^ Suc k" using b(2) by simp
  then have "(of_nat (Suc m) :: rat) \<le> 2 ^ Suc k" by (rule of_nat_le_pow2)
  moreover have "(of_nat (Suc m) :: rat) = of_int \<lceil>r\<rceil>" using mr by simp
  ultimately have "(of_int \<lceil>r\<rceil> :: rat) \<le> 2 ^ Suc k" by (simp only:)
  with c(2) have 2: "r \<le> 2 ^ Suc k" by (rule order_trans)
  have q: "q = 1 / r" using assms by (simp add: r_def)
  have rpos: "0 < r" using r1 by simp
  have "1 / 2 ^ Suc k \<le> 1 / r"
    using 2 rpos by (intro divide_left_mono) simp_all
  then have "1 / 2 ^ Suc k \<le> q"
    by (simp only: q [symmetric])
  moreover have "pow2 (floor_log2 q) = 1 / 2 ^ Suc k"
    by (simp only: f pow2_neg)
  ultimately have lo: "pow2 (floor_log2 q) \<le> q"
    by (simp only:)
  have "1 / r < 1 / 2 ^ k"
    using 1 rpos by (intro divide_strict_left_mono) simp_all
  then have "q < 1 / 2 ^ k"
    by (simp only: q [symmetric])
  moreover have "pow2 (floor_log2 q + 1) = 1 / 2 ^ k"
    using pow2_neg [of k] by (simp add: f)
  ultimately have hi: "q < pow2 (floor_log2 q + 1)"
    by (simp only:)
  from lo hi show ?thesis ..
qed


lemma round_half_even_near: "\<bar>of_int (round_half_even x) - x\<bar> \<le> 1 / 2"
proof -
  have "of_int \<lfloor>x\<rfloor> \<le> x" "x < of_int \<lfloor>x\<rfloor> + 1" by linarith+
  then show ?thesis
    by (auto simp: round_half_even_def Let_def)
qed

lemma round_half_even_mono: "of_int k \<le> x \<Longrightarrow> k \<le> round_half_even x"
proof -
  assume "of_int k \<le> x"
  then have "k \<le> \<lfloor>x\<rfloor>" by (simp add: le_floor_iff)
  then show ?thesis by (auto simp: round_half_even_def Let_def)
qed

lemma round_half_even_le: "x \<le> of_int k \<Longrightarrow> round_half_even x \<le> k"
proof -
  assume a: "x \<le> of_int k"
  show ?thesis
  proof (cases "x = of_int k")
    case True
    then show ?thesis by (simp add: round_half_even_def Let_def)
  next
    case False
    with a have "x < of_int k" by simp
    then have "\<lfloor>x\<rfloor> < k" by (simp add: floor_less_iff)
    then show ?thesis by (auto simp: round_half_even_def Let_def)
  qed
qed

lemma pow2_add_nat: "pow2 (a + int k) = pow2 a * 2 ^ k"
proof (induction k)
  case 0
  show ?case by simp
next
  case (Suc k)
  have "a + int (Suc k) = (a + int k) + 1" by simp
  then have "pow2 (a + int (Suc k)) = pow2 ((a + int k) + 1)" by (simp only:)
  also have "\<dots> = 2 * pow2 (a + int k)" by (rule pow2_Suc)
  finally show ?case by (simp add: Suc)
qed

text \<open>
  The rounding of a magnitude is a binary64 number: an integer significand of at most
  53 bits times a power of two not below \<open>2 ^ -1074\<close>, full (at least \<open>2 ^ 52\<close>) unless the
  exponent is the least one. It lies within half a unit in the last place of \<open>q\<close>.
\<close>

lemma round_mag_nearest:
  assumes "0 < q" "round_mag q = Some r"
  shows "\<exists>m e. r = of_int m * pow2 e \<and> 0 \<le> m \<and> m \<le> 2 ^ 53 \<and> - 1074 \<le> e \<and>
               (e = - 1074 \<or> 2 ^ 52 \<le> m) \<and> \<bar>r - q\<bar> \<le> pow2 e / 2"
proof -
  define e where "e = max (floor_log2 q - 52) (- 1074)"
  define m where "m = round_half_even (q / pow2 e)"
  have r: "r = of_int m * pow2 e"
    using assms by (simp add: round_mag_def Let_def e_def m_def split: if_splits)
  have pe: "0 < pow2 e" by (rule pow2_pos)
  have fl: "pow2 (floor_log2 q) \<le> q" "q < pow2 (floor_log2 q + 1)"
    using floor_log2_bounds [OF assms(1)] by simp_all
  note add = pow2_add_nat
  have ge: "floor_log2 q - 52 \<le> e" by (simp add: e_def)
  then obtain k where k: "e = floor_log2 q - 52 + int k"
    by (metis add.commute diff_add_cancel nonneg_int_cases diff_ge_0_iff_ge)
  have "floor_log2 q + 1 = floor_log2 q - 52 + int 53" by simp
  then have "pow2 (floor_log2 q + 1) = pow2 (floor_log2 q - 52 + int 53)"
    by (simp only:)
  also have "\<dots> = pow2 (floor_log2 q - 52) * 2 ^ 53"
    by (rule add)
  also have "\<dots> \<le> pow2 e * 2 ^ 53"
    using add [of "floor_log2 q - 52" k] k pow2_pos [of "floor_log2 q - 52"]
    by (simp add: mult_le_cancel_left1)
  finally have "q < pow2 e * 2 ^ 53" using fl(2) by simp
  then have "q / pow2 e \<le> of_int (2 ^ 53)"
    using pe by (simp add: field_simps)
  then have m53: "m \<le> 2 ^ 53"
    unfolding m_def by (rule round_half_even_le)
  have "of_int 0 \<le> q / pow2 e" using assms(1) pe by simp
  then have m0: "0 \<le> m" unfolding m_def by (rule round_half_even_mono)
  have full: "2 ^ 52 \<le> m" if "e \<noteq> - 1074"
  proof -
    from that have "e = floor_log2 q - 52" by (simp add: e_def max_def split: if_splits)
    then have "floor_log2 q = e + int 52" by simp
    then have "pow2 (floor_log2 q) = pow2 (e + int 52)" by (simp only:)
    also have "\<dots> = pow2 e * 2 ^ 52" by (rule add)
    finally have "pow2 e * 2 ^ 52 \<le> q" using fl(1) by simp
    then have "of_int (2 ^ 52) \<le> q / pow2 e"
      using pe by (simp add: field_simps)
    then show ?thesis unfolding m_def by (rule round_half_even_mono)
  qed
  have "\<bar>r - q\<bar> = \<bar>of_int m - q / pow2 e\<bar> * pow2 e"
    using pe by (simp add: r abs_mult [symmetric] left_diff_distrib del: abs_mult)
       (simp add: abs_mult [symmetric] field_simps)
  also have "\<dots> \<le> 1 / 2 * pow2 e"
    using round_half_even_near [of "q / pow2 e"] pe
    by (intro mult_right_mono) (simp_all add: m_def)
  finally have err: "\<bar>r - q\<bar> \<le> pow2 e / 2" by simp
  have "- 1074 \<le> e" by (simp add: e_def)
  with r m0 m53 full err show ?thesis by blast
qed

lemma isqrt_bounds: "isqrt n * isqrt n \<le> n \<and> n < (isqrt n + 1) * (isqrt n + 1)"
proof (induction n rule: isqrt.induct)
  case (1 n)
  show ?case
  proof (cases "n < 4")
    case True
    then have e: "isqrt n = (if n = 0 then 0 else 1)"
      by (subst isqrt.simps) simp
    show ?thesis using True by (auto simp: e)
  next
    case False
    define s where "s = isqrt (n div 4)"
    define a where "a = 2 * s"
    have ih: "s * s \<le> n div 4" "n div 4 < (s + 1) * (s + 1)"
      using "1.IH" False by (simp_all add: s_def)
    have "4 * (s * s) \<le> 4 * (n div 4)" using ih(1) by simp
    moreover have "4 * (n div 4) \<le> n" by presburger
    moreover have "a * a = 4 * (s * s)" by (simp add: a_def)
    ultimately have lo: "a * a \<le> n" by linarith
    have "n div 4 + 1 \<le> (s + 1) * (s + 1)" using ih(2) by simp
    then have "4 * (n div 4) + 4 \<le> 4 * ((s + 1) * (s + 1))" by simp
    moreover have "n < 4 * (n div 4) + 4" by presburger
    moreover have "(a + 2) * (a + 2) = 4 * ((s + 1) * (s + 1))"
      by (simp add: a_def algebra_simps)
    ultimately have hi: "n < (a + 2) * (a + 2)" by linarith
    have e: "isqrt n = (if (a + 1) * (a + 1) \<le> n then a + 1 else a)"
      using False by (subst isqrt.simps) (simp add: s_def a_def Let_def)
    show ?thesis
    proof (cases "(a + 1) * (a + 1) \<le> n")
      case True
      then have "isqrt n = a + 1" by (simp only: e if_True)
      moreover have "a + 1 + 1 = a + 2" by simp
      ultimately show ?thesis using True hi by simp
    next
      case False
      then have "isqrt n = a" by (simp only: e if_False)
      then show ?thesis using False lo by simp
    qed
  qed
qed

lemma pow2_mono: "a \<le> b \<Longrightarrow> pow2 a \<le> pow2 b"
proof -
  assume "a \<le> b"
  then obtain k where "b = a + int k"
    by (metis add.commute diff_add_cancel nonneg_int_cases diff_ge_0_iff_ge)
  then have "pow2 b = pow2 a * 2 ^ k" by (simp only: pow2_add_nat)
  moreover have "pow2 a * 1 \<le> pow2 a * 2 ^ k"
    using pow2_pos [of a] by (intro mult_left_mono) simp_all
  ultimately show ?thesis by simp
qed

text \<open>
  The rounded square root is a binary64 number with a full significand, and a nearest
  one to the square root of \<open>q\<close>: \<open>q\<close> lies between the squares of the two midpoints
  around it.
\<close>

lemma round_sqrt_nearest:
  assumes "0 < q"
  shows "\<exists>m e. round_sqrt q = of_nat m * pow2 e \<and> 2 ^ 52 \<le> m \<and> m \<le> 2 ^ 53 \<and>
               (of_nat m - 1 / 2) * (of_nat m - 1 / 2) * pow2 (2 * e) \<le> q \<and>
               q \<le> (of_nat m + 1 / 2) * (of_nat m + 1 / 2) * pow2 (2 * e)"
proof -
  define h where "h = floor_log2 q div 2"
  define e where "e = h - 52"
  define P where "P = pow2 (2 * e)"
  define t where "t = q / P"
  define n where "n = nat \<lfloor>t\<rfloor>"
  define s where "s = isqrt n"
  define x where "x = (of_nat s :: rat)"
  define hh where "hh = (x + 1 / 2) * (x + 1 / 2)"
  define m where "m = (if t < hh then s else if hh < t then s + 1
                       else if even s then s else s + 1)"
  have rs: "round_sqrt q = of_nat m * pow2 e"
    by (simp add: round_sqrt_def Let_def m_def hh_def x_def s_def n_def t_def P_def e_def h_def)
  have P: "0 < P" by (simp add: P_def pow2_pos)
  have fl: "pow2 (floor_log2 q) \<le> q" "q < pow2 (floor_log2 q + 1)"
    using floor_log2_bounds [OF assms] by simp_all
  have "2 * h \<le> floor_log2 q" "floor_log2 q + 1 \<le> 2 * h + 2"
    by (simp_all add: h_def)
  then have "pow2 (2 * h) \<le> pow2 (floor_log2 q)" "pow2 (floor_log2 q + 1) \<le> pow2 (2 * h + 2)"
    by (simp_all only: pow2_mono)
  then have "pow2 (2 * h) \<le> q" "q < pow2 (2 * h + 2)"
    using fl by linarith+
  moreover have "2 * h = 2 * e + int 104" "2 * h + 2 = 2 * e + int 106"
    by (simp_all add: e_def)
  ultimately have "pow2 (2 * e + int 104) \<le> q" "q < pow2 (2 * e + int 106)"
    by (simp_all only:)
  then have "P * 2 ^ 104 \<le> q" "q < P * 2 ^ 106"
    by (simp_all only: pow2_add_nat P_def)
  then have tr: "2 ^ 104 \<le> t" "t < 2 ^ 106"
    using P by (simp_all add: t_def field_simps)
  have t0: "0 \<le> \<lfloor>t\<rfloor>" using tr(1) by simp
  have nt: "of_nat n \<le> t" "t < of_nat n + 1"
    using t0 by (simp_all add: n_def) linarith+
  have "(2 ^ 104 :: int) \<le> \<lfloor>t\<rfloor>" using tr(1) by (simp add: le_floor_iff)
  then have n_lo: "2 ^ 104 \<le> n" by (simp add: n_def le_nat_iff)
  have "\<lfloor>t\<rfloor> < (2 ^ 106 :: int)" using tr(2) by (simp add: floor_less_iff)
  then have n_hi: "n < 2 ^ 106" using t0 by (simp add: n_def nat_less_iff)
  have sb: "s * s \<le> n" "n < (s + 1) * (s + 1)"
    using isqrt_bounds [of n] by (simp_all add: s_def)
  have s_lo: "2 ^ 52 \<le> s"
  proof (rule ccontr)
    assume "\<not> 2 ^ 52 \<le> s"
    then have "s + 1 \<le> 2 ^ 52" by simp
    then have "(s + 1) * (s + 1) \<le> 2 ^ 52 * 2 ^ 52" by (intro mult_le_mono)
    then show False using sb(2) n_lo by simp
  qed
  have s_hi: "s < 2 ^ 53"
  proof (rule ccontr)
    assume "\<not> s < 2 ^ 53"
    then have "2 ^ 53 \<le> s" by simp
    then have "2 ^ 53 * 2 ^ 53 \<le> s * s" by (intro mult_le_mono)
    then show False using sb(1) n_hi by simp
  qed
  have m_range: "2 ^ 52 \<le> m" "m \<le> 2 ^ 53"
    using s_lo s_hi by (simp_all add: m_def)
  have "(of_nat (s * s) :: rat) \<le> of_nat n" using sb(1) by (simp only: of_nat_le_iff)
  then have "x * x \<le> of_nat n" by (simp add: x_def)
  with nt(1) have t_lo: "x * x \<le> t" by (rule order_trans [rotated])
  have "n + 1 \<le> (s + 1) * (s + 1)" using sb(2) by simp
  then have "(of_nat (n + 1) :: rat) \<le> of_nat ((s + 1) * (s + 1))" by (simp only: of_nat_le_iff)
  then have "of_nat n + 1 \<le> (x + 1) * (x + 1)"
    by (simp add: algebra_simps x_def)
  with nt(2) have t_hi: "t < (x + 1) * (x + 1)" by (rule less_le_trans)
  have s1: "1 \<le> x" using s_lo by (simp add: x_def)
  have sq1: "(x - 1 / 2) * (x - 1 / 2) \<le> x * x"
    using s1 by (simp add: algebra_simps)
  have sq2: "(x + 1) * (x + 1) \<le> (x + 1 + 1 / 2) * (x + 1 + 1 / 2)"
    using s1 by (simp add: algebra_simps)
  have mid: "(of_nat m - 1 / 2) * (of_nat m - 1 / 2) \<le> t \<and>
             t \<le> (of_nat m + 1 / 2) * (of_nat m + 1 / 2)"
  proof (cases "m = s")
    case True
    then have "t \<le> hh" by (auto simp: m_def split: if_splits)
    then have "t \<le> (x + 1 / 2) * (x + 1 / 2)" by (simp only: hh_def)
    moreover have "(x - 1 / 2) * (x - 1 / 2) \<le> t" using sq1 t_lo by (rule order_trans)
    moreover have "(of_nat m :: rat) = x" by (simp only: True x_def)
    ultimately show ?thesis by (simp only:)
  next
    case False
    then have ms: "m = s + 1" and "hh \<le> t" by (auto simp: m_def split: if_splits)
    then have "(x + 1 / 2) * (x + 1 / 2) \<le> t" by (simp only: hh_def)
    moreover have "t \<le> (x + 1 + 1 / 2) * (x + 1 + 1 / 2)" using t_hi sq2 by linarith
    moreover have "(of_nat m :: rat) - 1 / 2 = x + 1 / 2" "(of_nat m :: rat) + 1 / 2 = x + 1 + 1 / 2"
      by (simp_all add: ms x_def)
    ultimately show ?thesis by (simp only:)
  qed
  have q: "q = t * P" using P by (simp add: t_def)
  have "(of_nat m - 1 / 2) * (of_nat m - 1 / 2) * P \<le> t * P"
    "t * P \<le> (of_nat m + 1 / 2) * (of_nat m + 1 / 2) * P"
    using mid P by (simp_all add: mult_right_mono)
  then show ?thesis
    using rs m_range unfolding q P_def by blast
qed

section \<open>Lemmas on magnitudes\<close>

lemma fmul_commute: "fmul a b = fmul b a"
proof (cases a; cases b)
  fix s p t q
  assume "a = Fin s p" "b = Fin t q"
  then show ?thesis
    by (cases s; cases t) (simp_all add: mult.commute)
qed auto

lemma round64_not_NaN: "round64 s q \<noteq> NaN"
  by (simp add: round64_def split: option.split)

lemma feq_refl: "x \<noteq> NaN \<Longrightarrow> feq x x"
  by (cases x) simp_all

lemma fneg_round64: "fneg (round64 s q) = round64 (\<not> s) q"
  by (simp add: round64_def split: option.split)

lemma fsub_anti:
  "(fsub a b = NaN \<and> fneg (fsub b a) = NaN) \<or> feq (fsub a b) (fneg (fsub b a))"
proof (cases a; cases b)
  fix s p t q
  assume ab: "a = Fin s p" "b = Fin t q"
  define x where "x = sval s p + sval (\<not> t) q"
  have y: "sval t q + sval (\<not> s) p = - x"
    by (simp add: sval_def x_def)
  have 1: "fsub a b = (if x = 0 then Fin (s \<and> \<not> t) 0 else round64 (x < 0) \<bar>x\<bar>)"
    using ab by (simp add: fsub_def Let_def x_def)
  have 2: "fsub b a = (if x = 0 then Fin (t \<and> \<not> s) 0 else round64 (- x < 0) \<bar>- x\<bar>)"
    using ab by (simp add: fsub_def Let_def y)
  show ?thesis
  proof (cases "x = 0")
    case True
    then show ?thesis
      by (simp add: 1 2 sval_def)
  next
    case False
    then have "(\<not> - x < 0) = (x < 0)" by auto
    then have "fneg (fsub b a) = round64 (x < 0) \<bar>x\<bar>"
      using False by (simp add: 2 fneg_round64)
    then show ?thesis
      using False by (simp add: 1 feq_refl round64_not_NaN)
  qed
qed (auto simp: fsub_def)


section \<open>Lemmas on exponents\<close>

lemma Dimension_eq_iff: "d = e \<longleftrightarrow> same_exponents (d::Dimension) e"
  by (cases d, cases e) (auto simp: same_exponents_def)

lemma sint8_bounds: "- 128 \<le> sint (x::int8) \<and> sint x < 128"
  using sint_ge [of x] sint_lt [of x] by simp

lemma odd_sint8_iff: "odd (sint (x::int8)) \<longleftrightarrow> odd x"
  using bit_sint_iff [of x 0] by (simp add: bit_0)

lemma rem8_2_iff: "rem8 x 2 \<noteq> 0 \<longleftrightarrow> odd (sint x)"
proof -
  have "sint x smod 2 = 0 \<or> sint x smod 2 = 1 \<or> sint x smod 2 = - 1"
    by (auto simp: signed_modulo_int_def sgn_if)
  moreover have "sint x smod 2 = 0 \<longleftrightarrow> even (sint x)"
    by (auto simp: signed_modulo_int_def sgn_if)
  ultimately show ?thesis
    by (auto simp: rem8_def)
qed

lemma even_sint_double: "even (sint (2 * (e::int8)))"
  using odd_sint8_iff [of "2 * e"] by simp

lemma quo8_2_even: "even (sint x) \<Longrightarrow> 2 * sint (quo8 x 2) = sint x"
proof -
  assume e: "even (sint x)"
  have b: "- 128 \<le> sint x \<and> sint x < 128" by (rule sint8_bounds)
  have q: "sint x sdiv 2 = sint x div 2"
    using e by (auto simp: signed_divide_int_def sgn_if elim!: evenE)
  have "- (2 ^ 7) \<le> sint x div 2" "sint x div 2 < 2 ^ 7"
    using b by simp_all presburger+
  then have "sint (word_of_int (sint x div 2) :: int8) = sint x div 2"
    by (simp add: signed_of_int signed_take_bit_int_eq_self)
  then show ?thesis using e q by (simp add: quo8_def)
qed

lemma sint8_double: "- 64 \<le> sint (e::int8) \<Longrightarrow> sint e < 64 \<Longrightarrow> sint (2 * e) = 2 * sint e"
proof -
  assume b: "- 64 \<le> sint e" "sint e < 64"
  have "2 * e = word_of_int (2 * sint e)" by simp
  then have "sint (2 * e) = signed_take_bit 7 (2 * sint e)"
    by (simp only: signed_of_int) simp
  also have "\<dots> = 2 * sint e"
    using b by (intro signed_take_bit_int_eq_self) simp_all
  finally show ?thesis .
qed

lemma quo8_double: "- 64 \<le> sint (e::int8) \<Longrightarrow> sint e < 64 \<Longrightarrow> quo8 (2 * e) 2 = e"
proof -
  assume b: "- 64 \<le> sint e" "sint e < 64"
  have "(2 * sint e) sdiv 2 = sint e"
    by (simp add: signed_divide_int_def abs_mult sgn_mult mult_sgn_abs)
  then show ?thesis
    using b by (simp add: quo8_def sint8_double)
qed


section \<open>Value arithmetic\<close>

text \<open>
  C1. Value.Add and Value.Subtract return an error exactly when the Dimensions of the
  operands are not structurally equal (some exponent differs); when they are equal, Add
  returns the Value \<open>(a.value + b.value, a.dim)\<close> and Subtract the Value
  \<open>(a.value - b.value, a.dim)\<close>, with no error.
\<close>

theorem Value_Add_Subtract_contract:
  "(isl (Value_Add a b) \<longleftrightarrow> \<not> same_exponents (dim a) (dim b)) \<and>
   (isl (Value_Subtract a b) \<longleftrightarrow> \<not> same_exponents (dim a) (dim b)) \<and>
   (same_exponents (dim a) (dim b) \<longrightarrow>
      Value_Add a b = Inr \<lparr>val = fadd (val a) (val b), dim = dim a\<rparr> \<and>
      Value_Subtract a b = Inr \<lparr>val = fsub (val a) (val b), dim = dim a\<rparr>)"
  by (simp add: Value_Add_def Value_Subtract_def Dimension_eq_iff)

text \<open>At 5 m and 3 m the sum is 8 m and the difference 2 m; 5 m and 3 kg are refused.\<close>

theorem Value_Add_Subtract_contract_witness:
  "same_exponents (dim (Meter (f64 5))) (dim (Meter (f64 3))) \<and>
   Value_Add (Meter (f64 5)) (Meter (f64 3)) = Inr (Meter (f64 8)) \<and>
   Value_Subtract (Meter (f64 5)) (Meter (f64 3)) = Inr (Meter (f64 2)) \<and>
   \<not> same_exponents (dim (Meter (f64 5))) (dim (Kilogram (f64 3))) \<and>
   isl (Value_Add (Meter (f64 5)) (Kilogram (f64 3))) \<and>
   isl (Value_Subtract (Meter (f64 5)) (Kilogram (f64 3)))"
  using Value_Add_Subtract_contract [of "Meter (f64 5)" "Meter (f64 3)"]
        Value_Add_Subtract_contract [of "Meter (f64 5)" "Kilogram (f64 3)"]
  by (simp add: units_eval f64_eval)

lemma fdiv_zero_not_finite: "feq y (f64 0) \<Longrightarrow> fdiv x y \<noteq> Fin s q"
  by (cases x; cases y) (auto simp: f64_def sval_def split: if_splits)

lemma sint8_add_no_wrap:
  "- 128 \<le> sint (x::int8) + sint y \<Longrightarrow> sint x + sint y < 128 \<Longrightarrow>
   sint (x + y) = sint x + sint y"
  by (simp add: sint_word_ariths signed_take_bit_int_eq_self)

lemma sint8_diff_no_wrap:
  "- 128 \<le> sint (x::int8) - sint y \<Longrightarrow> sint x - sint y < 128 \<Longrightarrow>
   sint (x - y) = sint x - sint y"
  by (simp add: sint_word_ariths signed_take_bit_int_eq_self)

text \<open>
  C2, as the code has it. Value.Multiply and Value.Divide have no error result. The
  product has the magnitude \<open>a.value * b.value\<close> and, exponent by exponent, the
  \<^verbatim>\<open>int8\<close> sum of the exponents of the operands, which is their sum as integers
  whenever that lies between -128 and 127 and wraps around otherwise; the quotient has
  the magnitude \<open>a.value / b.value\<close> and the \<^verbatim>\<open>int8\<close> difference of the exponents, with
  the same proviso. A divisor of magnitude zero is no error either: the quotient is
  then an infinity or a NaN.
\<close>

theorem Value_Multiply_Divide_total:
  "val (Value_Multiply a b) = fmul (val a) (val b) \<and>
   exponents (dim (Value_Multiply a b)) = map2 (+) (exponents (dim a)) (exponents (dim b)) \<and>
   (list_all2 (\<lambda>x y. - 128 \<le> sint x + sint y \<and> sint x + sint y < 128)
              (exponents (dim a)) (exponents (dim b)) \<longrightarrow>
      map sint (exponents (dim (Value_Multiply a b))) =
      map2 (\<lambda>x y. sint x + sint y) (exponents (dim a)) (exponents (dim b))) \<and>
   val (Value_Divide a b) = fdiv (val a) (val b) \<and>
   exponents (dim (Value_Divide a b)) = map2 (-) (exponents (dim a)) (exponents (dim b)) \<and>
   (list_all2 (\<lambda>x y. - 128 \<le> sint x - sint y \<and> sint x - sint y < 128)
              (exponents (dim a)) (exponents (dim b)) \<longrightarrow>
      map sint (exponents (dim (Value_Divide a b))) =
      map2 (\<lambda>x y. sint x - sint y) (exponents (dim a)) (exponents (dim b))) \<and>
   (feq (val b) (f64 0) \<longrightarrow> (\<forall>s q. val (Value_Divide a b) \<noteq> Fin s q))"
  by (simp add: Value_Multiply_def Value_Divide_def exponents_def fdiv_zero_not_finite
      sint8_add_no_wrap sint8_diff_no_wrap)

text \<open>
  10 m / 2 s is 5, of length 1 and time -1; 5 m * 3 m is 15, of length 2; 1 m / 0 s is
  the positive infinity.
\<close>

theorem Value_Multiply_Divide_total_witness:
  "list_all2 (\<lambda>x y. - 128 \<le> sint x - sint y \<and> sint x - sint y < 128)
     (exponents (dim (Meter (f64 10)))) (exponents (dim (Second (f64 2)))) \<and>
   val (Value_Divide (Meter (f64 10)) (Second (f64 2))) = f64 5 \<and>
   map sint (exponents (dim (Value_Divide (Meter (f64 10)) (Second (f64 2)))))
     = [1, 0, - 1, 0, 0, 0, 0] \<and>
   list_all2 (\<lambda>x y. - 128 \<le> sint x + sint y \<and> sint x + sint y < 128)
     (exponents (dim (Meter (f64 5)))) (exponents (dim (Meter (f64 3)))) \<and>
   val (Value_Multiply (Meter (f64 5)) (Meter (f64 3))) = f64 15 \<and>
   map sint (exponents (dim (Value_Multiply (Meter (f64 5)) (Meter (f64 3)))))
     = [2, 0, 0, 0, 0, 0, 0] \<and>
   feq (val (Second (f64 0))) (f64 0) \<and>
   val (Value_Divide (Meter (f64 1)) (Second (f64 0))) = Infty False"
  using Value_Multiply_Divide_total [of "Meter (f64 10)" "Second (f64 2)"]
        Value_Multiply_Divide_total [of "Meter (f64 5)" "Meter (f64 3)"]
        Value_Multiply_Divide_total [of "Meter (f64 1)" "Second (f64 0)"]
  by (simp add: units_eval f64_eval)

text \<open>
  Beyond that range the exponent of the result is not the sum of the exponents: the
  product of two Values of \<^verbatim>\<open>Dimension{L: 100}\<close> has the length exponent -56, not 200,
  and so has the quotient of \<^verbatim>\<open>Dimension{L: 100}\<close> by \<^verbatim>\<open>Dimension{L: -100}\<close>.
\<close>

theorem Value_Multiply_Divide_counterexample:
  "sint (L (dim (NewValue (f64 1) (Dimension0\<lparr>L := 100\<rparr>)))) +
     sint (L (dim (NewValue (f64 1) (Dimension0\<lparr>L := 100\<rparr>)))) = 200 \<and>
   sint (L (dim (Value_Multiply (NewValue (f64 1) (Dimension0\<lparr>L := 100\<rparr>))
                                (NewValue (f64 1) (Dimension0\<lparr>L := 100\<rparr>))))) = - 56 \<and>
   sint (L (dim (NewValue (f64 1) (Dimension0\<lparr>L := 100\<rparr>)))) -
     sint (L (dim (NewValue (f64 1) (Dimension0\<lparr>L := - 100\<rparr>)))) = 200 \<and>
   sint (L (dim (Value_Divide (NewValue (f64 1) (Dimension0\<lparr>L := 100\<rparr>))
                              (NewValue (f64 1) (Dimension0\<lparr>L := - 100\<rparr>))))) = - 56"
  by (simp add: NewValue_def Dimension0_def Value_Multiply_def Value_Divide_def)

lemma Value_Sqrt_isl:
  "isl (Value_Sqrt v) \<longleftrightarrow> (\<exists>e \<in> set (exponents (dim v)). odd (sint e))"
  by (simp add: Value_Sqrt_def exponents_def rem8_2_iff)

text \<open>
  C3. Value.Sqrt returns an error exactly when at least one of the seven exponents is
  odd; otherwise it returns the Value whose magnitude is the square root of the
  magnitude and whose exponents are the halves of the exponents. The magnitude plays no
  part in the decision: replacing it leaves the outcome, error or not, unchanged.
\<close>

theorem Value_Sqrt_contract:
  "(isl (Value_Sqrt v) \<longleftrightarrow> (\<exists>e \<in> set (exponents (dim v)). odd (sint e))) \<and>
   (\<not> isl (Value_Sqrt v) \<longrightarrow>
      (\<exists>r. Value_Sqrt v = Inr r \<and> val r = fsqrt (val v) \<and>
           map (\<lambda>e. 2 * sint e) (exponents (dim r)) = map sint (exponents (dim v)))) \<and>
   isl (Value_Sqrt (v\<lparr>val := x\<rparr>)) = isl (Value_Sqrt v)"
proof (intro conjI impI)
  show "isl (Value_Sqrt v) \<longleftrightarrow> (\<exists>e \<in> set (exponents (dim v)). odd (sint e))"
    by (rule Value_Sqrt_isl)
  show "isl (Value_Sqrt (v\<lparr>val := x\<rparr>)) = isl (Value_Sqrt v)"
    by (simp add: Value_Sqrt_isl)
next
  assume "\<not> isl (Value_Sqrt v)"
  then have ev: "\<forall>e \<in> set (exponents (dim v)). even (sint e)"
    by (simp add: Value_Sqrt_isl)
  then have "rem8 (L (dim v)) 2 = 0" "rem8 (M (dim v)) 2 = 0" "rem8 (T (dim v)) 2 = 0"
    "rem8 (I (dim v)) 2 = 0" "rem8 (\<Theta> (dim v)) 2 = 0" "rem8 (N (dim v)) 2 = 0"
    "rem8 (J (dim v)) 2 = 0"
    using rem8_2_iff by (auto simp: exponents_def)
  then have "Value_Sqrt v = Inr \<lparr>val = fsqrt (val v),
                dim = \<lparr>L = quo8 (L (dim v)) 2, M = quo8 (M (dim v)) 2, T = quo8 (T (dim v)) 2,
                       I = quo8 (I (dim v)) 2, \<Theta> = quo8 (\<Theta> (dim v)) 2, N = quo8 (N (dim v)) 2,
                       J = quo8 (J (dim v)) 2\<rparr>\<rparr>"
    by (simp add: Value_Sqrt_def)
  then show "\<exists>r. Value_Sqrt v = Inr r \<and> val r = fsqrt (val v) \<and>
           map (\<lambda>e. 2 * sint e) (exponents (dim r)) = map sint (exponents (dim v))"
    using ev by (simp add: exponents_def quo8_2_even)
qed


text \<open>The square root of 25 square meters is 5 m; 5 m has no square root.\<close>

theorem Value_Sqrt_contract_witness:
  "\<not> (\<exists>e \<in> set (exponents (dim (NewValue (f64 25) (Dimension0\<lparr>L := 2\<rparr>)))). odd (sint e)) \<and>
   Value_Sqrt (NewValue (f64 25) (Dimension0\<lparr>L := 2\<rparr>)) = Inr (Meter (f64 5)) \<and>
   (\<exists>e \<in> set (exponents (dim (Meter (f64 5)))). odd (sint e)) \<and>
   isl (Value_Sqrt (Meter (f64 5)))"
  using Value_Sqrt_contract [of "NewValue (f64 25) (Dimension0\<lparr>L := 2\<rparr>)"]
        Value_Sqrt_contract [of "Meter (f64 5)"]
  by (simp add: units_eval Value_Sqrt_def int8_eval f64_eval)

text \<open>
  C4, as the code has it. Value.Equal is false when the Dimensions differ. When they
  are equal it is true exactly when the magnitudes are equal, or the absolute error
  \<open>|a - b|\<close> is within the tolerance \<^verbatim>\<open>1e-14\<close> (whether or not an operand is zero), or
  neither magnitude is exactly zero and the relative error \<open>|a - b| / (|a| + |b|)\<close> is
  within the tolerance.
\<close>

theorem Value_Equal_contract:
  "Value_Equal a b \<longleftrightarrow>
     dim a = dim b \<and>
     (feq (val a) (val b)
      \<or> flt (abs_err (val a) (val b)) tolerance14
      \<or> (\<not> feq (val a) (f64 0) \<and> \<not> feq (val b) (f64 0)
          \<and> flt (rel_err (val a) (val b)) tolerance14))"
  by (auto simp: Value_Equal_def almostEqual_def Let_def abs_err_def rel_err_def tolerance14_def)

text \<open>
  \<^verbatim>\<open>1e10\<close> m and \<^verbatim>\<open>1e10 + 1e-5\<close> m are equal by the relative error alone; 1 m and
  1.001 m are not equal; 1 m and 1 s are not equal.
\<close>

theorem Value_Equal_contract_witness:
  "\<not> feq (f64 (10 ^ 10)) (f64 0) \<and> \<not> feq (f64 (10 ^ 10 + 1 / 10 ^ 5)) (f64 0) \<and>
   \<not> flt (abs_err (f64 (10 ^ 10)) (f64 (10 ^ 10 + 1 / 10 ^ 5))) tolerance14 \<and>
   flt (rel_err (f64 (10 ^ 10)) (f64 (10 ^ 10 + 1 / 10 ^ 5))) tolerance14 \<and>
   Value_Equal (Meter (f64 (10 ^ 10))) (Meter (f64 (10 ^ 10 + 1 / 10 ^ 5))) \<and>
   \<not> Value_Equal (Meter (f64 1)) (Meter (f64 (1001 / 1000))) \<and>
   \<not> Value_Equal (Meter (f64 1)) (Second (f64 1))"
  using Value_Equal_contract [of "Meter (f64 (10 ^ 10))" "Meter (f64 (10 ^ 10 + 1 / 10 ^ 5))"]
        Value_Equal_contract [of "Meter (f64 1)" "Meter (f64 (1001 / 1000))"]
        Value_Equal_contract [of "Meter (f64 1)" "Second (f64 1)"]
  by (simp add: units_eval equal_eval f64_eval)

text \<open>
  The comparison as the specification words it fails on the dimensionless magnitudes
  \<open>1 / 2 ^ 60\<close> and \<open>1 / 2 ^ 59\<close>: neither is zero and their relative error is one third, yet
  Value.Equal is true, since their absolute error is below the tolerance.
\<close>

theorem Value_Equal_counterexample:
  "Value_Equal (NewValue (f64 (1 / 2 ^ 60)) Dimension0) (NewValue (f64 (1 / 2 ^ 59)) Dimension0)
   \<and> \<not> Equal_as_specified (NewValue (f64 (1 / 2 ^ 60)) Dimension0)
                             (NewValue (f64 (1 / 2 ^ 59)) Dimension0)"
  by (simp add: equal_eval NewValue_def f64_eval)

section \<open>Vectors\<close>

lemma Value_Add_same:
  "dim a = dim b \<Longrightarrow> discard_err (Value_Add a b) = \<lparr>val = fadd (val a) (val b), dim = dim a\<rparr>"
  by (simp add: Value_Add_def discard_err_def)

lemma Value_Subtract_same:
  "dim a = dim b \<Longrightarrow>
   discard_err (Value_Subtract a b) = \<lparr>val = fsub (val a) (val b), dim = dim a\<rparr>"
  by (simp add: Value_Subtract_def discard_err_def)

lemma dim_Multiply_cong:
  "dim a = dim a' \<Longrightarrow> dim b = dim b' \<Longrightarrow> dim (Value_Multiply a b) = dim (Value_Multiply a' b')"
  by (simp add: Value_Multiply_def)

lemma Dot_shares:
  assumes "shares_dim v" "shares_dim w"
  shows "Dot v w =
         \<lparr>val = fadd (fadd (fmul (val (X v)) (val (X w))) (fmul (val (Y v)) (val (Y w))))
                     (fmul (val (Z v)) (val (Z w))),
          dim = dim (Value_Multiply (X v) (X w))\<rparr>"
proof -
  have 1: "dim (Value_Multiply (X v) (X w)) = dim (Value_Multiply (Y v) (Y w))"
    and 2: "dim (Value_Multiply (X v) (X w)) = dim (Value_Multiply (Z v) (Z w))"
    using assms by (auto simp: shares_dim_def intro: dim_Multiply_cong)
  show ?thesis
    unfolding Dot_def Let_def
    by (simp add: Value_Add_same 1 2 [symmetric]) (simp add: Value_Multiply_def)
qed

text \<open>
  C5. For a Vector3 whose components share one Dimension, Magnitude returns no error:
  every exponent of Dot(v, v) is the \<^verbatim>\<open>int8\<close> double of the exponent of the components,
  hence even, and Sqrt refuses odd exponents only.
\<close>

theorem Magnitude_never_fails:
  assumes "shares_dim v"
  shows "\<not> isl (Magnitude v) \<and>
         exponents (dim (Dot v v)) = map (\<lambda>e. e + e) (exponents (dim (X v))) \<and>
         (\<forall>e \<in> set (exponents (dim (Dot v v))). even (sint e))"
proof -
  have d: "exponents (dim (Dot v v)) = map (\<lambda>e. e + e) (exponents (dim (X v)))"
    by (simp add: Dot_shares [OF assms assms] Value_Multiply_def exponents_def)
  then have e: "\<forall>e \<in> set (exponents (dim (Dot v v))). even (sint e)"
    by (simp add: exponents_def even_sint_double)
  then have "\<not> isl (Magnitude v)"
    by (simp add: Magnitude_def MagnitudeSquared_def Value_Sqrt_isl)
  with d e show ?thesis by simp
qed

text \<open>The position (3 m, 4 m, 0 m) has the magnitude 5 m.\<close>

theorem Magnitude_never_fails_witness:
  "shares_dim (NewPosition (Meter (f64 3)) (Meter (f64 4)) (Meter (f64 0))) \<and>
   Magnitude (NewPosition (Meter (f64 3)) (Meter (f64 4)) (Meter (f64 0))) = Inr (Meter (f64 5)) \<and>
   exponents (dim (Dot (NewPosition (Meter (f64 3)) (Meter (f64 4)) (Meter (f64 0)))
                       (NewPosition (Meter (f64 3)) (Meter (f64 4)) (Meter (f64 0)))))
     = [2, 0, 0, 0, 0, 0, 0]"
  using Magnitude_never_fails [of "NewPosition (Meter (f64 3)) (Meter (f64 4)) (Meter (f64 0))"]
  by (simp add: units_eval vector_eval int8_eval f64_eval)


lemma shares_dim_iff: "shares_dim v \<longleftrightarrow> dim (Y v) = dim (X v) \<and> dim (Z v) = dim (X v)"
  by (auto simp: shares_dim_def)

lemma Cross_shares:
  assumes "shares_dim u" "shares_dim v"
  shows "Cross u v =
    \<lparr>X = \<lparr>val = fsub (fmul (val (Y u)) (val (Z v))) (fmul (val (Z u)) (val (Y v))),
           dim = dim (Value_Multiply (X u) (X v))\<rparr>,
     Y = \<lparr>val = fsub (fmul (val (Z u)) (val (X v))) (fmul (val (X u)) (val (Z v))),
           dim = dim (Value_Multiply (X u) (X v))\<rparr>,
     Z = \<lparr>val = fsub (fmul (val (X u)) (val (Y v))) (fmul (val (Y u)) (val (X v))),
           dim = dim (Value_Multiply (X u) (X v))\<rparr>\<rparr>"
proof -
  define D where "D = dim (Value_Multiply (X u) (X v))"
  have d: "dim (Y u) = dim (X u)" "dim (Z u) = dim (X u)" "dim (Y v) = dim (X v)"
    "dim (Z v) = dim (X v)"
    using assms by (simp_all add: shares_dim_iff)
  have m: "dim (Value_Multiply a b) = D" if "dim a = dim (X u)" "dim b = dim (X v)" for a b
    using that by (simp add: Value_Multiply_def D_def)
  have s: "discard_err (Value_Subtract (Value_Multiply a b) (Value_Multiply c e)) =
             \<lparr>val = fsub (fmul (val a) (val b)) (fmul (val c) (val e)), dim = D\<rparr>"
    if "dim a = dim (X u)" "dim b = dim (X v)" "dim c = dim (X u)" "dim e = dim (X v)"
    for a b c e
  proof -
    have "dim (Value_Multiply a b) = dim (Value_Multiply c e)"
      using that by (simp add: m)
    then show ?thesis
      using that by (simp add: Value_Subtract_same m) (simp add: Value_Multiply_def)
  qed
  have "Cross u v =
    \<lparr>X = \<lparr>val = fsub (fmul (val (Y u)) (val (Z v))) (fmul (val (Z u)) (val (Y v))), dim = D\<rparr>,
     Y = \<lparr>val = fsub (fmul (val (Z u)) (val (X v))) (fmul (val (X u)) (val (Z v))), dim = D\<rparr>,
     Z = \<lparr>val = fsub (fmul (val (X u)) (val (Y v))) (fmul (val (Y u)) (val (X v))), dim = D\<rparr>\<rparr>"
    unfolding Cross_def Let_def by (simp add: s d)
  then show ?thesis by (simp add: D_def)
qed

lemma shares_dim_Add:
  "Vector3_Add u v = Inr r \<Longrightarrow> shares_dim u \<Longrightarrow> shares_dim r"
  by (auto simp: Vector3_Add_def Value_Add_def shares_dim_def split: sum.splits if_splits)

lemma shares_dim_Subtract:
  "Vector3_Subtract u v = Inr r \<Longrightarrow> shares_dim u \<Longrightarrow> shares_dim r"
  by (auto simp: Vector3_Subtract_def Value_Subtract_def shares_dim_def split: sum.splits if_splits)

lemma shares_dim_Cross:
  "shares_dim u \<Longrightarrow> shares_dim v \<Longrightarrow> shares_dim (Cross u v)"
  by (simp add: Cross_shares) (simp add: shares_dim_def)

lemma shares_dim_Normalize:
  "Normalize v = Inr r \<Longrightarrow> shares_dim v \<Longrightarrow> shares_dim r"
  by (auto simp: Normalize_def shares_dim_def Value_Divide_def split: sum.splits if_splits)

lemma shares_dim_ProjectOnto:
  "ProjectOnto u v = Inr r \<Longrightarrow> shares_dim v \<Longrightarrow> shares_dim r"
  by (auto simp: ProjectOnto_def Let_def shares_dim_def Value_Multiply_def split: if_splits)

lemma shares_dim_New: "New x y z = Inr r \<Longrightarrow> shares_dim r"
  by (auto simp: New_def Dim_def shares_dim_def split: if_splits)

text \<open>
  C7. Sharing one Dimension among the three components is an invariant: from vectors
  that have the property, Add, Subtract, Scale, Negate, Cross, Normalize and
  ProjectOnto return, when they return without error, a vector that has it again; New,
  when it succeeds, and Zero, UnitX, UnitY and UnitZ establish it.
\<close>

theorem shares_dim_invariant:
  assumes "shares_dim u" "shares_dim v"
  shows "(\<forall>r. Vector3_Add u v = Inr r \<longrightarrow> shares_dim r) \<and>
         (\<forall>r. Vector3_Subtract u v = Inr r \<longrightarrow> shares_dim r) \<and>
         shares_dim (Vector3_Scale v k) \<and>
         shares_dim (Vector3_Negate v) \<and>
         shares_dim (Cross u v) \<and>
         (\<forall>r. Normalize v = Inr r \<longrightarrow> shares_dim r) \<and>
         (\<forall>r. ProjectOnto u v = Inr r \<longrightarrow> shares_dim r) \<and>
         (\<forall>r. New x y z = Inr r \<longrightarrow> shares_dim r) \<and>
         shares_dim (Zero d) \<and> shares_dim (UnitX d) \<and> shares_dim (UnitY d) \<and>
         shares_dim (UnitZ d)"
proof -
  have "shares_dim (Vector3_Scale v k)" "shares_dim (Vector3_Negate v)"
    using assms(2)
    by (simp_all add: shares_dim_iff Vector3_Scale_def Vector3_Negate_def Value_Scale_def
        Value_Negate_def)
  moreover have "shares_dim (Zero d)" "shares_dim (UnitX d)" "shares_dim (UnitY d)"
    "shares_dim (UnitZ d)"
    by (simp_all add: shares_dim_def Zero_def UnitX_def UnitY_def UnitZ_def NewValue_def)
  ultimately show ?thesis
    using assms shares_dim_Add shares_dim_Subtract shares_dim_Cross shares_dim_Normalize
      shares_dim_ProjectOnto shares_dim_New
    by blast
qed

text \<open>All the operations succeed on (1, 2, 3) m and (3, 4, 0) m.\<close>

theorem shares_dim_invariant_witness:
  "shares_dim (NewPosition (Meter (f64 1)) (Meter (f64 2)) (Meter (f64 3))) \<and>
   shares_dim (NewPosition (Meter (f64 3)) (Meter (f64 4)) (Meter (f64 0))) \<and>
   \<not> isl (Vector3_Add (NewPosition (Meter (f64 1)) (Meter (f64 2)) (Meter (f64 3)))
                      (NewPosition (Meter (f64 3)) (Meter (f64 4)) (Meter (f64 0)))) \<and>
   shares_dim (projr (Vector3_Add (NewPosition (Meter (f64 1)) (Meter (f64 2)) (Meter (f64 3)))
                      (NewPosition (Meter (f64 3)) (Meter (f64 4)) (Meter (f64 0))))) \<and>
   \<not> isl (Vector3_Subtract (NewPosition (Meter (f64 1)) (Meter (f64 2)) (Meter (f64 3)))
                      (NewPosition (Meter (f64 3)) (Meter (f64 4)) (Meter (f64 0)))) \<and>
   shares_dim (projr (Vector3_Subtract (NewPosition (Meter (f64 1)) (Meter (f64 2)) (Meter (f64 3)))
                      (NewPosition (Meter (f64 3)) (Meter (f64 4)) (Meter (f64 0))))) \<and>
   \<not> isl (Normalize (NewPosition (Meter (f64 3)) (Meter (f64 4)) (Meter (f64 0)))) \<and>
   shares_dim (projr (Normalize (NewPosition (Meter (f64 3)) (Meter (f64 4)) (Meter (f64 0))))) \<and>
   \<not> isl (ProjectOnto (NewPosition (Meter (f64 1)) (Meter (f64 2)) (Meter (f64 3)))
                      (NewPosition (Meter (f64 3)) (Meter (f64 4)) (Meter (f64 0)))) \<and>
   shares_dim (projr (ProjectOnto (NewPosition (Meter (f64 1)) (Meter (f64 2)) (Meter (f64 3)))
                      (NewPosition (Meter (f64 3)) (Meter (f64 4)) (Meter (f64 0))))) \<and>
   \<not> isl (New (Meter (f64 1)) (Meter (f64 2)) (Meter (f64 3))) \<and>
   shares_dim (projr (New (Meter (f64 1)) (Meter (f64 2)) (Meter (f64 3)))) \<and>
   shares_dim (Cross (NewPosition (Meter (f64 1)) (Meter (f64 2)) (Meter (f64 3)))
                      (NewPosition (Meter (f64 3)) (Meter (f64 4)) (Meter (f64 0))))"
  using shares_dim_invariant [of "NewPosition (Meter (f64 1)) (Meter (f64 2)) (Meter (f64 3))"
      "NewPosition (Meter (f64 3)) (Meter (f64 4)) (Meter (f64 0))"
      "f64 2" "Meter (f64 1)" "Meter (f64 2)" "Meter (f64 3)" "Dimension0\<lparr>L := 1\<rparr>"]
  by (simp add: units_eval vector_eval vector3_eval int8_eval f64_eval)

text \<open>
  C9. UnitZ is documented as the unit vector in the Z direction: X and Y of magnitude
  0, Z of magnitude 1. The code puts the 1 into Y, as UnitY does, and leaves Z at 0:
  at \<^verbatim>\<open>Dimension{L: 1}\<close> it returns (0 m, 1 m, 0 m).
\<close>

theorem UnitZ_is_UnitY:
  "UnitZ (Dimension0\<lparr>L := 1\<rparr>) = NewPosition (Meter (f64 0)) (Meter (f64 1)) (Meter (f64 0)) \<and>
   \<not> feq (val (Z (UnitZ (Dimension0\<lparr>L := 1\<rparr>)))) (f64 1) \<and>
   \<not> feq (val (Y (UnitZ (Dimension0\<lparr>L := 1\<rparr>)))) (f64 0)"
  by (simp add: units_eval vector_eval vector3_eval f64_eval)

lemma Magnitude_shares:
  assumes "shares_dim v"
  shows "Magnitude v =
         Inr \<lparr>val = fsqrt (val (Dot v v)),
              dim = \<lparr>L = quo8 (L (dim (X v)) + L (dim (X v))) 2,
                     M = quo8 (M (dim (X v)) + M (dim (X v))) 2,
                     T = quo8 (T (dim (X v)) + T (dim (X v))) 2,
                     I = quo8 (I (dim (X v)) + I (dim (X v))) 2,
                     \<Theta> = quo8 (\<Theta> (dim (X v)) + \<Theta> (dim (X v))) 2,
                     N = quo8 (N (dim (X v)) + N (dim (X v))) 2,
                     J = quo8 (J (dim (X v)) + J (dim (X v))) 2\<rparr>\<rparr>"
proof -
  have d: "dim (Dot v v) = dim (Value_Multiply (X v) (X v))"
    by (simp add: Dot_shares [OF assms assms])
  have "\<And>e::int8. rem8 (2 * e) 2 = 0"
    using rem8_2_iff even_sint_double by blast
  then show ?thesis
    by (simp add: Magnitude_def MagnitudeSquared_def Value_Sqrt_def Let_def d)
       (simp add: Value_Multiply_def)
qed

text \<open>
  C6, as the code has it. For a Vector3 whose components share one Dimension, Normalize
  returns an error exactly when the raw scalar of the magnitude is exactly zero;
  otherwise every component of the result is the component of the input divided by the
  magnitude Value. The components of the result are dimensionless when every exponent
  of the shared Dimension lies between -64 and 63, so that its \<^verbatim>\<open>int8\<close> double in
  Dot(v, v) does not wrap around.
\<close>

theorem Normalize_contract:
  assumes "shares_dim v"
  shows "\<exists>mag. Magnitude v = Inr mag \<and>
           (isl (Normalize v) \<longleftrightarrow> feq (Val mag) (f64 0)) \<and>
           (\<not> feq (Val mag) (f64 0) \<longrightarrow>
              Normalize v = Inr \<lparr>X = Value_Divide (X v) mag, Y = Value_Divide (Y v) mag,
                                  Z = Value_Divide (Z v) mag\<rparr> \<and>
              (fits_doubling (dim (X v)) \<longrightarrow>
                 list_all IsDimensionless
                   [Value_Divide (X v) mag, Value_Divide (Y v) mag, Value_Divide (Z v) mag]))"
proof -
  let ?mag = "\<lparr>val = fsqrt (val (Dot v v)),
              dim = \<lparr>L = quo8 (L (dim (X v)) + L (dim (X v))) 2,
                     M = quo8 (M (dim (X v)) + M (dim (X v))) 2,
                     T = quo8 (T (dim (X v)) + T (dim (X v))) 2,
                     I = quo8 (I (dim (X v)) + I (dim (X v))) 2,
                     \<Theta> = quo8 (\<Theta> (dim (X v)) + \<Theta> (dim (X v))) 2,
                     N = quo8 (N (dim (X v)) + N (dim (X v))) 2,
                     J = quo8 (J (dim (X v)) + J (dim (X v))) 2\<rparr>\<rparr>"
  have m: "Magnitude v = Inr ?mag"
    by (rule Magnitude_shares [OF assms])
  have d: "dim (Y v) = dim (X v)" "dim (Z v) = dim (X v)"
    using assms by (simp_all add: shares_dim_iff)
  have 1: "isl (Normalize v) \<longleftrightarrow> feq (Val ?mag) (f64 0)"
    by (simp add: Normalize_def m)
  have 2: "Normalize v = Inr \<lparr>X = Value_Divide (X v) ?mag, Y = Value_Divide (Y v) ?mag,
                                  Z = Value_Divide (Z v) ?mag\<rparr>"
    if "\<not> feq (Val ?mag) (f64 0)"
    using that by (simp add: Normalize_def m)
  have 3: "list_all IsDimensionless
             [Value_Divide (X v) ?mag, Value_Divide (Y v) ?mag, Value_Divide (Z v) ?mag]"
    if "fits_doubling (dim (X v))"
    using that
    by (simp add: fits_doubling_def exponents_def IsDimensionless_def Value_Divide_def d
        Dimension0_def quo8_double)
  from m 1 2 3 show ?thesis by blast
qed

text \<open>
  The position (3 m, 4 m, 0 m) normalizes to the dimensionless (0.6, 0.8, 0); the zero
  vector is refused.
\<close>

theorem Normalize_contract_witness:
  "shares_dim (NewPosition (Meter (f64 3)) (Meter (f64 4)) (Meter (f64 0))) \<and>
   fits_doubling (dim (X (NewPosition (Meter (f64 3)) (Meter (f64 4)) (Meter (f64 0))))) \<and>
   Magnitude (NewPosition (Meter (f64 3)) (Meter (f64 4)) (Meter (f64 0))) = Inr (Meter (f64 5)) \<and>
   \<not> feq (Val (Meter (f64 5))) (f64 0) \<and>
   Normalize (NewPosition (Meter (f64 3)) (Meter (f64 4)) (Meter (f64 0))) =
     Inr \<lparr>X = NewValue (f64 (3 / 5)) Dimension0, Y = NewValue (f64 (4 / 5)) Dimension0,
          Z = NewValue (f64 0) Dimension0\<rparr> \<and>
   IsDimensionless (NewValue (f64 (3 / 5)) Dimension0) \<and>
   shares_dim (Zero (Dimension0\<lparr>L := 1\<rparr>)) \<and>
   Magnitude (Zero (Dimension0\<lparr>L := 1\<rparr>)) = Inr (Meter (f64 0)) \<and>
   isl (Normalize (Zero (Dimension0\<lparr>L := 1\<rparr>)))"
  using Normalize_contract [of "NewPosition (Meter (f64 3)) (Meter (f64 4)) (Meter (f64 0))"]
        Normalize_contract [of "Zero (Dimension0\<lparr>L := 1\<rparr>)"]
  by (simp add: units_eval vector_eval vector3_eval int8_eval f64_eval)

text \<open>
  With the exponent 64 the claim of dimensionless components fails: in UnitX of
  \<^verbatim>\<open>Dimension{L: 64}\<close> the double \<open>64 + 64\<close> wraps to \<open>-128\<close>, the magnitude has the
  exponent \<open>-64\<close>, and the quotient has \<open>64 - (-64)\<close>, which wraps to \<open>-128\<close>.
\<close>

theorem Normalize_counterexample:
  "shares_dim (UnitX (Dimension0\<lparr>L := 64\<rparr>)) \<and>
   Normalize (UnitX (Dimension0\<lparr>L := 64\<rparr>)) = Inr (UnitX (Dimension0\<lparr>L := - 128\<rparr>)) \<and>
   \<not> IsDimensionless (X (UnitX (Dimension0\<lparr>L := - 128\<rparr>)))"
  by (simp add: units_eval vector_eval vector3_eval int8_eval f64_eval)

lemma almostEqual_feq: "feq x y \<Longrightarrow> almostEqual x y t"
  by (simp add: almostEqual_def)

text \<open>
  C8, as the code has it. For vectors whose components share one Dimension each,
  Cross(u, v) and Negate(Cross(v, u)) have equal Dimensions component by component, and
  their magnitudes are equal under \<^verbatim>\<open>==\<close>, hence under Value.Equal, in every component
  whose magnitude is not NaN; a component that is NaN on one side is NaN on the other.
\<close>

theorem Cross_anticommutative:
  assumes "shares_dim u" "shares_dim v"
  shows "list_all2 (\<lambda>a b. dim a = dim b \<and>
                       (val a = NaN \<and> val b = NaN \<or> feq (val a) (val b) \<and> Value_Equal a b))
           (Components (Cross u v)) (Components (Vector3_Negate (Cross v u)))"
proof -
  have d: "dim (Value_Multiply (X u) (X v)) = dim (Value_Multiply (X v) (X u))"
    by (simp add: Value_Multiply_def add.commute)
  have k: "(fsub (fmul a b) (fmul c e) = NaN \<and> fneg (fsub (fmul e c) (fmul b a)) = NaN) \<or>
           feq (fsub (fmul a b) (fmul c e)) (fneg (fsub (fmul e c) (fmul b a)))" for a b c e
    using fsub_anti [of "fmul a b" "fmul c e"] by (simp add: fmul_commute [of e c] fmul_commute [of b a])
  show ?thesis
    using k [of "val (Y u)" "val (Z v)" "val (Z u)" "val (Y v)"]
          k [of "val (Z u)" "val (X v)" "val (X u)" "val (Z v)"]
          k [of "val (X u)" "val (Y v)" "val (Y u)" "val (X v)"]
    by (simp add: Cross_shares assms Components_def Vector3_Negate_def Value_Negate_def d
        Value_Equal_def) (auto simp: almostEqual_feq)
qed

text \<open>
  For (1, 2, 3) m and (4, 5, 6) m both sides are (-3, 6, -3) square meters.
\<close>

theorem Cross_anticommutative_witness:
  "shares_dim (NewPosition (Meter (f64 1)) (Meter (f64 2)) (Meter (f64 3))) \<and>
   shares_dim (NewPosition (Meter (f64 4)) (Meter (f64 5)) (Meter (f64 6))) \<and>
   Components (Cross (NewPosition (Meter (f64 1)) (Meter (f64 2)) (Meter (f64 3)))
                     (NewPosition (Meter (f64 4)) (Meter (f64 5)) (Meter (f64 6)))) =
     [NewValue (f64 (- 3)) (Dimension0\<lparr>L := 2\<rparr>), NewValue (f64 6) (Dimension0\<lparr>L := 2\<rparr>),
      NewValue (f64 (- 3)) (Dimension0\<lparr>L := 2\<rparr>)] \<and>
   Components (Vector3_Negate
                (Cross (NewPosition (Meter (f64 4)) (Meter (f64 5)) (Meter (f64 6)))
                       (NewPosition (Meter (f64 1)) (Meter (f64 2)) (Meter (f64 3))))) =
     [NewValue (f64 (- 3)) (Dimension0\<lparr>L := 2\<rparr>), NewValue (f64 6) (Dimension0\<lparr>L := 2\<rparr>),
      NewValue (f64 (- 3)) (Dimension0\<lparr>L := 2\<rparr>)]"
  using Cross_anticommutative [of "NewPosition (Meter (f64 1)) (Meter (f64 2)) (Meter (f64 3))"
                                  "NewPosition (Meter (f64 4)) (Meter (f64 5)) (Meter (f64 6))"]
  by (simp add: units_eval vector_eval vector3_eval f64_eval)

text \<open>
  The finite vector \<open>u = (0, 2 ^ 600, 2 ^ 600)\<close> m: in Cross(u, u) both products of the
  first component overflow to \<open>+\<infinity>\<close>, their difference is NaN on both sides, and NaN
  equals nothing, under \<^verbatim>\<open>==\<close> as under Value.Equal.
\<close>

lemma Cross_self_overflow:
  assumes "fmul x x = Infty False"
  shows "shares_dim (NewPosition (Meter (f64 0)) (Meter x) (Meter x)) \<and>
         val (X (Cross (NewPosition (Meter (f64 0)) (Meter x) (Meter x))
                       (NewPosition (Meter (f64 0)) (Meter x) (Meter x)))) = NaN \<and>
         \<not> feq (val (X (Cross (NewPosition (Meter (f64 0)) (Meter x) (Meter x))
                              (NewPosition (Meter (f64 0)) (Meter x) (Meter x)))))
                (val (X (Vector3_Negate
                          (Cross (NewPosition (Meter (f64 0)) (Meter x) (Meter x))
                                 (NewPosition (Meter (f64 0)) (Meter x) (Meter x)))))) \<and>
         \<not> Value_Equal (X (Cross (NewPosition (Meter (f64 0)) (Meter x) (Meter x))
                                 (NewPosition (Meter (f64 0)) (Meter x) (Meter x))))
                        (X (Vector3_Negate
                             (Cross (NewPosition (Meter (f64 0)) (Meter x) (Meter x))
                                    (NewPosition (Meter (f64 0)) (Meter x) (Meter x)))))"
  using assms
  by (simp add: units_eval vector_eval vector3_eval fsub_def Value_Equal_def almostEqual_def)

theorem Cross_anticommutative_counterexample:
  "shares_dim (NewPosition (Meter (f64 0)) (Meter (f64 (2 ^ 600))) (Meter (f64 (2 ^ 600)))) \<and>
   val (X (Cross (NewPosition (Meter (f64 0)) (Meter (f64 (2 ^ 600))) (Meter (f64 (2 ^ 600))))
                 (NewPosition (Meter (f64 0)) (Meter (f64 (2 ^ 600))) (Meter (f64 (2 ^ 600))))))
     = NaN \<and>
   \<not> feq (val (X (Cross
                    (NewPosition (Meter (f64 0)) (Meter (f64 (2 ^ 600))) (Meter (f64 (2 ^ 600))))
                    (NewPosition (Meter (f64 0)) (Meter (f64 (2 ^ 600))) (Meter (f64 (2 ^ 600)))))))
          (val (X (Vector3_Negate
                    (Cross
                      (NewPosition (Meter (f64 0)) (Meter (f64 (2 ^ 600))) (Meter (f64 (2 ^ 600))))
                      (NewPosition (Meter (f64 0)) (Meter (f64 (2 ^ 600)))
                         (Meter (f64 (2 ^ 600)))))))) \<and>
   \<not> Value_Equal
       (X (Cross (NewPosition (Meter (f64 0)) (Meter (f64 (2 ^ 600))) (Meter (f64 (2 ^ 600))))
                 (NewPosition (Meter (f64 0)) (Meter (f64 (2 ^ 600))) (Meter (f64 (2 ^ 600))))))
       (X (Vector3_Negate
            (Cross (NewPosition (Meter (f64 0)) (Meter (f64 (2 ^ 600))) (Meter (f64 (2 ^ 600))))
                   (NewPosition (Meter (f64 0)) (Meter (f64 (2 ^ 600)))
                      (Meter (f64 (2 ^ 600)))))))"
  by (rule Cross_self_overflow [OF fmul_overflow])

section \<open>Rendering\<close>

lemma join_parts_eq:
  "join_parts i ps r =
     (if ps = [] then r else if i = 0 then r @ join_space ps else r @ '' '' @ join_space ps)"
proof (induction ps arbitrary: i r)
  case Nil
  then show ?case by simp
next
  case (Cons p ps)
  have "join_parts i (p # ps) r = join_parts (i + 1) ps ((if 0 < i then r @ '' '' else r) @ p)"
    by simp
  also have "\<dots> = (if ps = [] then (if 0 < i then r @ '' '' else r) @ p
                   else ((if 0 < i then r @ '' '' else r) @ p) @ '' '' @ join_space ps)"
    by (subst Cons.IH) simp
  finally show ?case
    by (cases ps) simp_all
qed

lemma Dimension0_iff: "d = Dimension0 \<longleftrightarrow> list_all (\<lambda>e. e = 0) (exponents d)"
  by (cases d) (auto simp: Dimension0_def exponents_def)

text \<open>
  C10. Dimension.String lists only the non-zero exponents, each as a token
  \<^verbatim>\<open>SYMBOL^exponent\<close>, in the fixed order L, M, T, I, \<open>\<Theta>\<close>, N, J, separated by single
  spaces and enclosed in square brackets; the all-zero Dimension is rendered as
  \<^verbatim>\<open>[1]\<close>. The loop of the source computes what \<open>render_spec\<close> describes.
\<close>

theorem Dimension_String_render: "Dimension_String d = render_spec d"
proof (cases "d = Dimension0")
  case True
  then show ?thesis
    by (simp add: Dimension_String_def render_spec_def Dimension0_iff [symmetric])
next
  case False
  then have nz: "\<not> list_all (\<lambda>e. e = 0) (exponents d)"
    by (simp add: Dimension0_iff)
  have "Dimension_String d =
        ''['' @ join_space (map token (filter (\<lambda>p. snd p \<noteq> 0) (symbol_exponents d))) @ '']''"
    using False nz
    by (simp add: Dimension_String_def Let_def join_parts_eq symbol_exponents_def token_def
        exponents_def)
  then show ?thesis
    using nz by (simp add: render_spec_def)
qed

lemmas string_eval = render_spec_def symbol_exponents_def token_def fmt_d_def digits.simps
  Theta_sym_def exponents_def Dimension0_def

text \<open>The renderings expected by the tests of the package, and that of the exponent -128.\<close>

theorem Dimension_String_render_witness:
  "Dimension_String Dimension0 = ''[1]'' \<and>
   Dimension_String (Dimension0\<lparr>L := 1, T := - 1\<rparr>) = ''[L^1 T^-1]'' \<and>
   Dimension_String \<lparr>L = 1, M = 2, T = - 3, I = 4, \<Theta> = - 5, N = 6, J = - 7\<rparr>
     = ''[L^1 M^2 T^-3 I^4 '' @ [CHR 0xCE, CHR 0x98] @ ''^-5 N^6 J^-7]'' \<and>
   Dimension_String (Dimension0\<lparr>J := - 128\<rparr>) = ''[J^-128]''"
  using Dimension_String_render [of Dimension0]
        Dimension_String_render [of "Dimension0\<lparr>L := 1, T := - 1\<rparr>"]
        Dimension_String_render [of "\<lparr>L = 1, M = 2, T = - 3, I = 4, \<Theta> = - 5, N = 6, J = - 7\<rparr>"]
        Dimension_String_render [of "Dimension0\<lparr>J := - 128\<rparr>"]
  by (simp add: string_eval)

end
